theory Spec2Isabelle
  imports Complex_Main "HOL-Library.Word"
begin

section \<open>The H to ZZ* demonstration notebook: a shallow embedding\<close>

text \<open>
  The notebook \<^verbatim>\<open>seminar_HiggsDemo.ipynb\<close> defines five functions of its own:
  \<^verbatim>\<open>get_lepton_query\<close>, \<^verbatim>\<open>get_xsec_weight\<close>, \<^verbatim>\<open>lepton_filter\<close>,
  \<^verbatim>\<open>HZZAnalysis.process\<close> and \<^verbatim>\<open>produce_all_histograms\<close> (with its inner
  \<^verbatim>\<open>run_updates_stream\<close>). Each is translated below.

  Conventions of the embedding.
  \<^item> Python floats are idealised as \<open>real\<close>. No theorem below rests on rounding: each
    states which expression the code evaluates.
  \<^item> The entries of the integer columns (lepton charge, lepton type, lepton count) are
    \<open>int\<close>; a sum over such a column is taken in a 64-bit integer and wraps around.
  \<^item> An awkward array of events is a list; a jagged array is a list of lists.
  \<^item> Every exception the code can raise is a value of \<open>error\<close>, and a function that can
    raise returns \<open>error + 'a\<close>.
  \<^item> Calls into external libraries whose result is not decided by the notebook (the
    four-vector addition and mass, the executor, the datasource factory) are
    parameters of the model.
\<close>

subsection \<open>Exceptions\<close>

datatype error =
    KeyError string                \<comment> \<open>a dictionary lookup with a missing key\<close>
  | IndexError                     \<comment> \<open>\<^verbatim>\<open>re.findall(...)[0]\<close> on an empty list\<close>
  | LeptonIndexError nat           \<comment> \<open>\<^verbatim>\<open>leptons[:, k]\<close> where an event has at most k leptons\<close>
  | MaskIndexError                 \<comment> \<open>a boolean mask that is true beyond the end of the array\<close>
  | ZeroDivisionError              \<comment> \<open>float division by zero\<close>
  | SchemaError                    \<comment> \<open>lepton columns of unequal length cannot be zipped\<close>
  | TypeError                      \<comment> \<open>subscripting \<^verbatim>\<open>None\<close>\<close>
  | LibError string                \<comment> \<open>any exception raised inside an external library\<close>
  | Failure string error           \<comment> \<open>\<^verbatim>\<open>Exception(f"Failure while processing {name}")\<close>
                                       raised \<^verbatim>\<open>from e\<close>\<close>

subsection \<open>Files to process and histogram settings\<close>

definition prefix :: string where
  "prefix = ''root://eospublic.cern.ch//eos/opendata/atlas/OutreachDatasets/2020-01-22/4lep/''"

text \<open>The labels are raw strings; the backslash is the character 0x5C.\<close>

definition z_ttbar :: string where
  "z_ttbar = ''Background $Z,t'' @ [CHR 0x5C] @ ''bar{t}$''"

definition zzstar :: string where
  "zzstar = ''Background $ZZ^{'' @ [CHR 0x5C] @ ''star}$''"

definition signal :: string where
  "signal = ''Signal ($m_H$ = 125 GeV)''"

text \<open>A Python dict keeps insertion order; \<open>fileset\<close> is an association list.\<close>

definition fileset :: "(string \<times> string list) list" where
  "fileset =
    [(''Data'',
        [prefix @ ''Data/data_A.4lep.root'',
         prefix @ ''Data/data_B.4lep.root'',
         prefix @ ''Data/data_C.4lep.root'',
         prefix @ ''Data/data_D.4lep.root'']),
     (z_ttbar,
        [prefix @ ''MC/mc_361106.Zee.4lep.root'',
         prefix @ ''MC/mc_361107.Zmumu.4lep.root'',
         prefix @ ''MC/mc_410000.ttbar_lep.4lep.root'']),
     (zzstar, [prefix @ ''MC/mc_363490.llll.4lep.root'']),
     (signal,
        [prefix @ ''MC/mc_345060.ggH125_ZZ4lep.4lep.root'',
         prefix @ ''MC/mc_344235.VBFH125_ZZ4lep.4lep.root'',
         prefix @ ''MC/mc_341964.WH125_ZZ4lep.4lep.root'',
         prefix @ ''MC/mc_341947.ZH125_ZZ4lep.4lep.root''])]"

definition fileset_keys :: "string list" where
  "fileset_keys = map fst fileset"

definition bin_edge_low :: real where "bin_edge_low = 80"
definition bin_edge_high :: real where "bin_edge_high = 250"
definition num_bins :: nat where "num_bins = 34"

subsection \<open>The query: \<^verbatim>\<open>get_lepton_query\<close>\<close>

text \<open>
  One event of the input tree, with the branches the query reads. \<^verbatim>\<open>Where\<close> filters the
  stream of events and \<^verbatim>\<open>Select\<close> maps each remaining event to a dictionary of columns.
\<close>

record tree_event =   \<comment> \<open>field \<open>e_b\<close> is the branch \<^verbatim>\<open>e.b\<close>\<close>
  e_lep_n :: int
  e_lep_pt :: "real list"
  e_lep_eta :: "real list"
  e_lep_phi :: "real list"
  e_lep_E :: "real list"
  e_lep_charge :: "int list"
  e_lep_type :: "int list"
  e_mcWeight :: real
  e_scaleFactor_ELE :: real
  e_scaleFactor_MUON :: real
  e_scaleFactor_LepTRIGGER :: real
  e_scaleFactor_PILEUP :: real

text \<open>The dictionary built by \<^verbatim>\<open>Select\<close>; field \<open>col_k\<close> is the key \<^verbatim>\<open>"k"\<close>.\<close>

record columns =
  col_lep_pt :: "real list"
  col_lep_eta :: "real list"
  col_lep_phi :: "real list"
  col_lep_energy :: "real list"
  col_lep_charge :: "int list"
  col_lep_typeid :: "int list"
  col_mcWeight :: real
  col_scaleFactor :: real
  col_scaleFactorUP :: real
  col_scaleFactorDOWN :: real

definition select_columns :: "tree_event \<Rightarrow> columns" where
  "select_columns e =
    \<lparr> col_lep_pt = e_lep_pt e,
      col_lep_eta = e_lep_eta e,
      col_lep_phi = e_lep_phi e,
      col_lep_energy = e_lep_E e,
      col_lep_charge = e_lep_charge e,
      col_lep_typeid = e_lep_type e,
      col_mcWeight = e_mcWeight e,
      col_scaleFactor =
        e_scaleFactor_ELE e * e_scaleFactor_MUON e * e_scaleFactor_LepTRIGGER e
          * e_scaleFactor_PILEUP e,
      col_scaleFactorUP =
        e_scaleFactor_ELE e * e_scaleFactor_MUON e * e_scaleFactor_LepTRIGGER e
          * e_scaleFactor_PILEUP e * 1.1,
      col_scaleFactorDOWN =
        e_scaleFactor_ELE e * e_scaleFactor_MUON e * e_scaleFactor_LepTRIGGER e
          * e_scaleFactor_PILEUP e * 0.9 \<rparr>"

definition get_lepton_query :: "tree_event list \<Rightarrow> columns list" where
  "get_lepton_query source = map select_columns (filter (\<lambda>e. e_lep_n e = 4) source)"

subsection \<open>Event weighting: \<^verbatim>\<open>get_xsec_weight\<close>\<close>

text \<open>
  \<^verbatim>\<open>infofile.infos\<close> is a table of the repository that the notebook imports; it is a
  parameter here: a dictionary from sample names to dictionaries of numbers.
\<close>

type_synonym infos = "string \<rightharpoonup> (string \<rightharpoonup> real)"

definition get_xsec_weight :: "infos \<Rightarrow> string \<Rightarrow> error + real" where
  "get_xsec_weight infos sample =
    (let lumi = 10000 in
     case infos sample of
       None \<Rightarrow> Inl (KeyError sample)
     | Some xsec_map \<Rightarrow>
        (case xsec_map ''xsec'' of
           None \<Rightarrow> Inl (KeyError ''xsec'')
         | Some xsec \<Rightarrow>
            (case xsec_map ''sumw'' of
               None \<Rightarrow> Inl (KeyError ''sumw'')
             | Some sumw \<Rightarrow>
                (case xsec_map ''red_eff'' of
                   None \<Rightarrow> Inl (KeyError ''red_eff'')
                 | Some red_eff \<Rightarrow>
                    if sumw * red_eff = 0 then Inl ZeroDivisionError
                    else Inr ((lumi * xsec) / (sumw * red_eff))))))"

subsection \<open>The cut: \<^verbatim>\<open>lepton_filter\<close>\<close>

text \<open>
  \<^verbatim>\<open>ak.sum(..., axis=1)\<close> adds the integers of each event in a 64-bit accumulator (32-bit
  columns are widened to 64 bits first), and the addition wraps around. A signed and an
  unsigned accumulator hold the same 64 bits, and the comparisons below are with
  constants between 0 and 52, so one word type serves for both.
\<close>

definition sum_int64 :: "int list \<Rightarrow> 64 word" where
  "sum_int64 xs = sum_list (map word_of_int xs)"

definition ak_sum_axis1 :: "int list list \<Rightarrow> 64 word list" where
  "ak_sum_axis1 xss = map sum_int64 xss"

text \<open>
  \<^verbatim>\<open>ak.any(rows, axis=0)\<close> and \<^verbatim>\<open>ak.all(rows, axis=0)\<close> reduce a list of boolean arrays
  position by position; where the rows have different lengths a missing entry is skipped.
\<close>

fun ak_or2 :: "bool list \<Rightarrow> bool list \<Rightarrow> bool list" where
  "ak_or2 [] ys = ys"
| "ak_or2 xs [] = xs"
| "ak_or2 (x # xs) (y # ys) = (x \<or> y) # ak_or2 xs ys"

fun ak_and2 :: "bool list \<Rightarrow> bool list \<Rightarrow> bool list" where
  "ak_and2 [] ys = ys"
| "ak_and2 xs [] = xs"
| "ak_and2 (x # xs) (y # ys) = (x \<and> y) # ak_and2 xs ys"

definition ak_any_axis0 :: "bool list list \<Rightarrow> bool list" where
  "ak_any_axis0 rows = foldr ak_or2 rows []"

definition ak_all_axis0 :: "bool list list \<Rightarrow> bool list" where
  "ak_all_axis0 rows = foldr ak_and2 rows []"

definition lepton_filter :: "int list list \<Rightarrow> int list list \<Rightarrow> bool list" where
  "lepton_filter lep_charge lep_type =
    (let sum_lep_charge = ak_sum_axis1 lep_charge;
         sum_lep_type = ak_sum_axis1 lep_type;
         good_lep_type =
           ak_any_axis0
             [map (\<lambda>s. s = 44) sum_lep_type,
              map (\<lambda>s. s = 48) sum_lep_type,
              map (\<lambda>s. s = 52) sum_lep_type]
     in ak_all_axis0 [map (\<lambda>s. s = 0) sum_lep_charge, good_lep_type])"

subsection \<open>Events as the processor sees them\<close>

text \<open>
  The processor receives the selected columns through the schema of the external
  \<^verbatim>\<open>coffea\<close> library: the columns named \<^verbatim>\<open>lep_*\<close> are zipped, event by event, into the
  records of \<^verbatim>\<open>events.lep\<close>; the other columns stay fields of the event. The batch carries
  a metadata dictionary.

  The model zips the columns of one event. Where the lepton columns of an event differ
  in length the library does not raise: it cuts every column at the list boundaries of
  the first one, so that values move between events. A model of single events cannot
  express that; it reports \<open>SchemaError\<close> there, and no property below is stated for
  such events.
\<close>

record lepton =
  pt :: real
  eta :: real
  phi :: real
  energy :: real
  charge :: int
  typeid :: int

record event =
  lep :: "lepton list"
  mcWeight :: real
  scaleFactor :: real
  scaleFactorUP :: real
  scaleFactorDOWN :: real

record events =
  metadata :: "string \<rightharpoonup> string"
  array :: "event list"

definition zip_leptons :: "columns \<Rightarrow> error + lepton list" where
  "zip_leptons c =
    (let n = length (col_lep_pt c) in
     if length (col_lep_eta c) = n \<and> length (col_lep_phi c) = n
        \<and> length (col_lep_energy c) = n \<and> length (col_lep_charge c) = n
        \<and> length (col_lep_typeid c) = n
     then Inr (map (\<lambda>i. \<lparr> pt = col_lep_pt c ! i, eta = col_lep_eta c ! i,
                          phi = col_lep_phi c ! i, energy = col_lep_energy c ! i,
                          charge = col_lep_charge c ! i, typeid = col_lep_typeid c ! i \<rparr>)
               [0..<n])
     else Inl SchemaError)"

definition schema_event :: "columns \<Rightarrow> error + event" where
  "schema_event c =
    (case zip_leptons c of
       Inl e \<Rightarrow> Inl e
     | Inr ls \<Rightarrow>
         Inr \<lparr> lep = ls, mcWeight = col_mcWeight c, scaleFactor = col_scaleFactor c,
               scaleFactorUP = col_scaleFactorUP c,
               scaleFactorDOWN = col_scaleFactorDOWN c \<rparr>)"

fun sequence_err :: "(error + 'a) list \<Rightarrow> error + 'a list" where
  "sequence_err [] = Inr []"
| "sequence_err (Inl e # _) = Inl e"
| "sequence_err (Inr x # rs) =
     (case sequence_err rs of Inl e \<Rightarrow> Inl e | Inr xs \<Rightarrow> Inr (x # xs))"

definition schema_events :: "(string \<rightharpoonup> string) \<Rightarrow> columns list \<Rightarrow> error + events" where
  "schema_events md cs =
    (case sequence_err (map schema_event cs) of
       Inl e \<Rightarrow> Inl e
     | Inr es \<Rightarrow> Inr \<lparr> metadata = md, array = es \<rparr>)"

subsection \<open>Array operations used by the processor\<close>

text \<open>
  \<^verbatim>\<open>events[mask]\<close>: a boolean mask selects the positions at which it is true. A mask
  shorter than the array is accepted; a mask that is true at a position beyond the end
  of the array is an error.
\<close>

definition ak_getitem_mask :: "'a list \<Rightarrow> bool list \<Rightarrow> error + 'a list" where
  "ak_getitem_mask xs keep =
    (if True \<in> set (drop (length xs) keep) then Inl MaskIndexError
     else Inr (map fst (filter snd (zip xs keep))))"

text \<open>\<^verbatim>\<open>leptons[:, k]\<close>: every event must have more than \<open>k\<close> leptons.\<close>

definition ak_getitem_col :: "'a list list \<Rightarrow> nat \<Rightarrow> error + 'a list" where
  "ak_getitem_col xss k =
    (if list_all (\<lambda>xs. k < length xs) xss then Inr (map (\<lambda>xs. xs ! k) xss)
     else Inl (LeptonIndexError k))"

text \<open>
  The four-vector arithmetic belongs to the external vector library: how a lepton
  record is read as a four-vector, the sum of two four-vectors and the mass of one.
\<close>

record 'v veclib =
  to_vec :: "lepton \<Rightarrow> 'v"
  vec_add :: "'v \<Rightarrow> 'v \<Rightarrow> 'v"
  vec_mass :: "'v \<Rightarrow> real"

definition mass4 :: "'v veclib \<Rightarrow> lepton \<Rightarrow> lepton \<Rightarrow> lepton \<Rightarrow> lepton \<Rightarrow> real" where
  "mass4 L l0 l1 l2 l3 =
    vec_mass L
      (vec_add L (vec_add L (vec_add L (to_vec L l0) (to_vec L l1)) (to_vec L l2))
         (to_vec L l3))"

definition calc_mllll :: "'v veclib \<Rightarrow> lepton list list \<Rightarrow> error + real list" where
  "calc_mllll L leptons =
    (case ak_getitem_col leptons 0 of Inl e \<Rightarrow> Inl e | Inr c0 \<Rightarrow>
    (case ak_getitem_col leptons 1 of Inl e \<Rightarrow> Inl e | Inr c1 \<Rightarrow>
    (case ak_getitem_col leptons 2 of Inl e \<Rightarrow> Inl e | Inr c2 \<Rightarrow>
    (case ak_getitem_col leptons 3 of Inl e \<Rightarrow> Inl e | Inr c3 \<Rightarrow>
       Inr (map (\<lambda>(l0, l1, l2, l3). mass4 L l0 l1 l2 l3 / 1000)
              (zip c0 (zip c1 (zip c2 c3))))))))"

subsection \<open>The sample name: \<^verbatim>\<open>re.findall(r"mc_\d+\.(.+)\.4lep", filename)[0]\<close>\<close>

text \<open>
  The first element of \<^verbatim>\<open>findall\<close> is the group of the leftmost match. At a given start
  the pattern needs \<^verbatim>\<open>mc_\<close>, a run of digits (greedy; giving digits back never helps,
  since a dot must follow the run), a dot, and then the longest non-empty text without
  a newline that is followed by \<^verbatim>\<open>.4lep\<close>. File names are ASCII: a digit is one of
  the characters 0 to 9, and the newline is the character 0x0A.
\<close>

fun strip_prefix :: "string \<Rightarrow> string \<Rightarrow> string option" where
  "strip_prefix [] s = Some s"
| "strip_prefix (p # ps) [] = None"
| "strip_prefix (p # ps) (c # cs) = (if p = c then strip_prefix ps cs else None)"

definition is_digit :: "char \<Rightarrow> bool" where
  "is_digit c = (c \<in> set ''0123456789'')"

fun greedy_group :: "string \<Rightarrow> string option" where
  "greedy_group [] = None"
| "greedy_group (c # cs) =
     (if c = CHR 0x0A then None
      else case greedy_group cs of
             Some g \<Rightarrow> Some (c # g)
           | None \<Rightarrow> (case strip_prefix ''.4lep'' cs of
                        Some _ \<Rightarrow> Some [c]
                      | None \<Rightarrow> None))"

definition match_here :: "string \<Rightarrow> string option" where
  "match_here s =
    (case strip_prefix ''mc_'' s of
       None \<Rightarrow> None
     | Some t \<Rightarrow>
        (if takeWhile is_digit t = [] then None
         else case dropWhile is_digit t of
                [] \<Rightarrow> None
              | d # r \<Rightarrow> if d = CHR ''.'' then greedy_group r else None))"

fun findall_first :: "string \<Rightarrow> string option" where
  "findall_first [] = None"
| "findall_first (c # cs) =
     (case match_here (c # cs) of
        Some g \<Rightarrow> Some g
      | None \<Rightarrow> findall_first cs)"

subsection \<open>Histograms\<close>

text \<open>
  \<^verbatim>\<open>hist\<close> is an external library. A histogram is modelled by its axes and by the
  sequence of \<^verbatim>\<open>fill\<close> calls it has received, each with its keyword arguments; a
  histogram that has received none is empty. Plot labels are left out.
\<close>

datatype axis =
    Reg nat real real string       \<comment> \<open>bins, lower edge, upper edge, name\<close>
  | StrCat "string list" string     \<comment> \<open>categories, name\<close>

record fill =
  fill_mllll :: "real list"
  fill_dataset :: "string option"
  fill_variation :: "string option"
  fill_weight :: "real list option"

record hist =
  axes :: "axis list"
  fills :: "fill list"

definition hist_fill :: "hist \<Rightarrow> fill \<Rightarrow> hist" where
  "hist_fill h f = h\<lparr> fills := fills h @ [f] \<rparr>"

text \<open>
  What one fill adds: one entry per element of \<^verbatim>\<open>mllll\<close>, with the weight given for it, or
  the weight 1 when the call passes no \<^verbatim>\<open>weight\<close>.
\<close>

definition fill_entries :: "fill \<Rightarrow> (real \<times> real) list" where
  "fill_entries f =
    (case fill_weight f of
       None \<Rightarrow> map (\<lambda>m. (m, 1)) (fill_mllll f)
     | Some w \<Rightarrow> zip (fill_mllll f) w)"

definition new_hist_data :: hist where
  "new_hist_data =
    \<lparr> axes = [Reg num_bins bin_edge_low bin_edge_high ''mllll''], fills = [] \<rparr>"

definition new_hist_MC :: hist where
  "new_hist_MC =
    \<lparr> axes = [Reg num_bins bin_edge_low bin_edge_high ''mllll'',
              StrCat (filter (\<lambda>k. k \<noteq> ''Data'') fileset_keys) ''dataset'',
              StrCat [''nominal'', ''scaleFactorUP'', ''scaleFactorDOWN'', ''m4lUP'',
                      ''m4lDOWN''] ''variation''],
      fills = [] \<rparr>"

subsection \<open>The processor: \<^verbatim>\<open>HZZAnalysis.process\<close>\<close>

text \<open>The dictionary with the keys \<^verbatim>\<open>"data"\<close> and \<^verbatim>\<open>"MC"\<close>.\<close>

record 'h hists =
  data :: 'h
  MC :: 'h

definition fill_MC :: "hist \<Rightarrow> real list \<Rightarrow> string \<Rightarrow> string \<Rightarrow> real list \<Rightarrow> hist" where
  "fill_MC h mllll dataset variation weight =
    hist_fill h \<lparr> fill_mllll = mllll, fill_dataset = Some dataset,
                  fill_variation = Some variation, fill_weight = Some weight \<rparr>"

definition process :: "'v veclib \<Rightarrow> infos \<Rightarrow> events \<Rightarrow> error + hist hists" where
  "process L infos events0 =
    (case metadata events0 ''dataset_category'' of
       None \<Rightarrow> Inl (KeyError ''dataset_category'')
     | Some dataset_category \<Rightarrow>
    (let leptons0 = map lep (array events0) in
    (case ak_getitem_mask (array events0)
            (lepton_filter (map (map charge) leptons0) (map (map typeid) leptons0)) of
       Inl e \<Rightarrow> Inl e
     | Inr evs \<Rightarrow>
    (let leptons = map lep evs in
    (case calc_mllll L leptons of
       Inl e \<Rightarrow> Inl e
     | Inr mllll \<Rightarrow>
    (let mllllhist_data = new_hist_data;
         mllllhist_MC = new_hist_MC
     in
     if dataset_category = ''Data'' then
       Inr \<lparr> data = hist_fill mllllhist_data
                      \<lparr> fill_mllll = mllll, fill_dataset = None, fill_variation = None,
                        fill_weight = None \<rparr>,
             MC = mllllhist_MC \<rparr>
     else
      (case metadata events0 ''filename'' of
         None \<Rightarrow> Inl (KeyError ''filename'')
       | Some filename \<Rightarrow>
      (case findall_first filename of
         None \<Rightarrow> Inl IndexError
       | Some sample \<Rightarrow>
      (case get_xsec_weight infos sample of
         Inl e \<Rightarrow> Inl e
       | Inr xsec_weight \<Rightarrow>
      (let basic_weight = map (\<lambda>ev. xsec_weight * mcWeight ev) evs;
           totalWeights = map (\<lambda>(b, ev). b * scaleFactor ev) (zip basic_weight evs);
           totalWeightsUp = map (\<lambda>(b, ev). b * scaleFactorUP ev) (zip basic_weight evs);
           totalWeightsDown =
             map (\<lambda>(b, ev). b * scaleFactorDOWN ev) (zip basic_weight evs);
           h1 = fill_MC mllllhist_MC mllll dataset_category ''nominal'' totalWeights;
           h2 = fill_MC h1 mllll dataset_category ''scaleFactorUP'' totalWeightsUp;
           h3 = fill_MC h2 mllll dataset_category ''scaleFactorDOWN'' totalWeightsDown;
           h4 = fill_MC h3 (map (\<lambda>m. m * 1.01) mllll) dataset_category ''m4lUP''
                  totalWeights;
           h5 = fill_MC h4 (map (\<lambda>m. m * 0.99) mllll) dataset_category ''m4lDOWN''
                  totalWeights
       in Inr \<lparr> data = mllllhist_data, MC = h5 \<rparr>))))))))))"

subsection \<open>Running everything: \<^verbatim>\<open>produce_all_histograms\<close>\<close>

text \<open>
  \<^verbatim>\<open>utils.make_datasource\<close> (a module of the repository that the notebook imports) and
  the executor of \<^verbatim>\<open>coffea\<close> are parameters. A datasource carries a metadata dictionary.
  The executor turns the processor and a datasource into an asynchronous stream of
  accumulated histogram dictionaries: the items it yields, and the exception that ends
  it, if any.
\<close>

record datasource =
  src_metadata :: "string \<rightharpoonup> string"
  src_files :: "string list"

type_synonym accumulator_stream = "hist hists list \<times> error option"

type_synonym executor =
  "(events \<Rightarrow> error + hist hists) \<Rightarrow> datasource \<Rightarrow> accumulator_stream"

type_synonym datasource_factory =
  "(string \<times> string list) list \<Rightarrow> string \<Rightarrow> (tree_event list \<Rightarrow> columns list) \<Rightarrow> datasource"

text \<open>
  The loop keeps the last item; \<^verbatim>\<open>except Exception as e\<close> replaces whatever the stream
  raises by a new exception that names the dataset category and has \<open>e\<close> as its cause.
\<close>

definition run_updates_stream :: "accumulator_stream \<Rightarrow> string \<Rightarrow> error + hist hists option" where
  "run_updates_stream accumulator_stream name =
    (case accumulator_stream of
       (items, Some e) \<Rightarrow> Inl (Failure name e)
     | (items, None) \<Rightarrow> Inr (foldl (\<lambda>coffea_info item. Some item) None items))"

text \<open>
  \<^verbatim>\<open>asyncio.gather\<close> returns the results in the order of its arguments when every job
  returns. Otherwise it raises the exception of the job that fails first in time;
  \<open>sched\<close> is the order in which the jobs finish, chosen by the event loop.
\<close>

definition gather :: "nat list \<Rightarrow> (error + 'a) list \<Rightarrow> error + 'a list" where
  "gather sched outcomes =
    (case sequence_err outcomes of
       Inr xs \<Rightarrow> Inr xs
     | Inl e0 \<Rightarrow>
        (case concat (map (\<lambda>i. if i < length outcomes
                                then (case outcomes ! i of Inl e \<Rightarrow> [e] | Inr _ \<Rightarrow> [])
                                else []) sched) of
           e # _ \<Rightarrow> Inl e
         | [] \<Rightarrow> Inl e0))"

text \<open>
  Adding two histograms needs equal axes; the sum has received the fills of both.
  \<^verbatim>\<open>sum\<close> starts from the integer 0, and \<^verbatim>\<open>0 + h\<close> is \<open>h\<close>.
\<close>

datatype hsum = Zero | Hist hist

definition hist_add :: "hist \<Rightarrow> hist \<Rightarrow> error + hist" where
  "hist_add h1 h2 =
    (if axes h1 = axes h2 then Inr \<lparr> axes = axes h1, fills = fills h1 @ fills h2 \<rparr>
     else Inl (LibError ''axes of the histograms differ''))"

fun py_sum_from :: "hsum \<Rightarrow> hist list \<Rightarrow> error + hsum" where
  "py_sum_from acc [] = Inr acc"
| "py_sum_from Zero (h # hs) = py_sum_from (Hist h) hs"
| "py_sum_from (Hist a) (h # hs) =
     (case hist_add a h of Inl e \<Rightarrow> Inl e | Inr s \<Rightarrow> py_sum_from (Hist s) hs)"

definition py_sum :: "hist list \<Rightarrow> error + hsum" where
  "py_sum hs = py_sum_from Zero hs"

text \<open>\<^verbatim>\<open>h["data"]\<close> for each gathered result; a result \<^verbatim>\<open>None\<close> cannot be subscripted.\<close>

definition getitems :: "('h hists \<Rightarrow> 'h) \<Rightarrow> 'h hists option list \<Rightarrow> error + 'h list" where
  "getitems key ds =
    sequence_err (map (\<lambda>h. case h of None \<Rightarrow> Inl TypeError | Some d \<Rightarrow> Inr (key d)) ds)"

definition make_jobs :: "datasource list \<Rightarrow> (datasource \<Rightarrow> accumulator_stream)
    \<Rightarrow> error + (accumulator_stream \<times> string) list" where
  "make_jobs datasources exec =
    sequence_err
      (map (\<lambda>source. case src_metadata source ''dataset_category'' of
                        None \<Rightarrow> Inl (KeyError ''dataset_category'')
                      | Some name \<Rightarrow> Inr (exec source, name))
         datasources)"

definition produce_all_histograms ::
    "'v veclib \<Rightarrow> infos \<Rightarrow> datasource_factory \<Rightarrow> executor \<Rightarrow> nat list \<Rightarrow> error + hsum hists" where
  "produce_all_histograms L infos make_datasource execute sched =
    (let lepton_query = get_lepton_query;
         datasources = map (\<lambda>ds_name. make_datasource fileset ds_name lepton_query)
                         fileset_keys;
         analysis_processor = process L infos
     in
    (case make_jobs datasources (execute analysis_processor) of
        Inl e \<Rightarrow> Inl e
      | Inr jobs \<Rightarrow>
    (case gather sched (map (\<lambda>(stream, name). run_updates_stream stream name) jobs) of
        Inl e \<Rightarrow> Inl e
      | Inr all_histogram_dicts \<Rightarrow>
    (case getitems data all_histogram_dicts of Inl e \<Rightarrow> Inl e | Inr ds \<Rightarrow>
    (case py_sum ds of Inl e \<Rightarrow> Inl e | Inr full_data_histogram \<Rightarrow>
    (case getitems MC all_histogram_dicts of Inl e \<Rightarrow> Inl e | Inr ms \<Rightarrow>
    (case py_sum ms of Inl e \<Rightarrow> Inl e | Inr full_mc_histogram \<Rightarrow>
       Inr \<lparr> data = full_data_histogram, MC = full_mc_histogram \<rparr>)))))))"

subsection \<open>Notions used to state the properties\<close>

text \<open>
  An event passes the cut when the 64-bit sum of its lepton charges is 0 and the
  64-bit sum of its lepton type identifiers is 44, 48 or 52. That the processor keeps
  exactly these events is proved below (\<open>select_events\<close>), not assumed.
\<close>

definition passes_cut :: "event \<Rightarrow> bool" where
  "passes_cut ev =
    (sum_int64 (map charge (lep ev)) = 0
     \<and> (sum_int64 (map typeid (lep ev)) = 44 \<or> sum_int64 (map typeid (lep ev)) = 48
        \<or> sum_int64 (map typeid (lep ev)) = 52))"

text \<open>
  In the input tree \<^verbatim>\<open>lep_n\<close> is the number of leptons of the event: every lepton branch
  has \<^verbatim>\<open>lep_n\<close> entries. The query tests \<^verbatim>\<open>lep_n\<close>, the processor indexes the
  lepton branches; this predicate is what connects the two.
\<close>

definition lep_n_counts_leptons :: "tree_event \<Rightarrow> bool" where
  "lep_n_counts_leptons e =
    (e_lep_n e = int (length (e_lep_pt e)) \<and> e_lep_n e = int (length (e_lep_eta e))
     \<and> e_lep_n e = int (length (e_lep_phi e)) \<and> e_lep_n e = int (length (e_lep_E e))
     \<and> e_lep_n e = int (length (e_lep_charge e))
     \<and> e_lep_n e = int (length (e_lep_type e)))"

text \<open>
  The pattern of the fill calls a result has received: for each histogram, the
  variation label of every call in order, and whether the call passed a weight.
\<close>

definition fill_pattern :: "hist hists \<Rightarrow> (string option \<times> bool) list \<times> (string option \<times> bool) list" where
  "fill_pattern r =
    (map (\<lambda>f. (fill_variation f, fill_weight f \<noteq> None)) (fills (data r)),
     map (\<lambda>f. (fill_variation f, fill_weight f \<noteq> None)) (fills (MC r)))"

subsection \<open>Concrete inputs for evaluation\<close>

text \<open>
  A toy vector library (a four-vector is read as its energy alone), two events (the
  first passes the cut, the second has total charge 2), and a small cross-section table.
  They serve to evaluate the definitions; no general theorem depends on them.
\<close>

definition ex_veclib :: "real veclib" where
  "ex_veclib = \<lparr> to_vec = energy, vec_add = (+), vec_mass = (\<lambda>v. v) \<rparr>"

definition ex_lepton :: "real \<Rightarrow> int \<Rightarrow> int \<Rightarrow> lepton" where
  "ex_lepton en c t = \<lparr> pt = 1, eta = 0, phi = 0, energy = en, charge = c, typeid = t \<rparr>"

definition ex_event_pass :: event where
  "ex_event_pass =
    \<lparr> lep = [ex_lepton 30000 1 11, ex_lepton 30000 (-1) 11, ex_lepton 40000 1 13,
             ex_lepton 25000 (-1) 13],
      mcWeight = 2, scaleFactor = 1, scaleFactorUP = 1.1, scaleFactorDOWN = 0.9 \<rparr>"

definition ex_event_fail :: event where
  "ex_event_fail =
    \<lparr> lep = [ex_lepton 30000 1 11, ex_lepton 30000 1 11, ex_lepton 40000 1 13,
             ex_lepton 25000 (-1) 13],
      mcWeight = 2, scaleFactor = 1, scaleFactorUP = 1.1, scaleFactorDOWN = 0.9 \<rparr>"

definition ex_entry :: "real \<Rightarrow> real \<Rightarrow> real \<Rightarrow> (string \<rightharpoonup> real)" where
  "ex_entry x s r = [''xsec'' \<mapsto> x, ''sumw'' \<mapsto> s, ''red_eff'' \<mapsto> r]"

definition ex_infos :: infos where
  "ex_infos =
    [''ggH125_ZZ4lep'' \<mapsto> ex_entry 3 20000 1,
     ''Zee'' \<mapsto> ex_entry 1950 150000 1,
     ''llll'' \<mapsto> ex_entry 1 7500 1]"

definition ex_events :: "string \<Rightarrow> string \<Rightarrow> events" where
  "ex_events category filename =
    \<lparr> metadata = [''dataset_category'' \<mapsto> category, ''filename'' \<mapsto> filename],
      array = [ex_event_pass, ex_event_fail] \<rparr>"

definition ex_filename :: string where
  "ex_filename = prefix @ ''MC/mc_345060.ggH125_ZZ4lep.4lep.root''"

definition ex_filename_llll :: string where
  "ex_filename_llll = prefix @ ''MC/mc_363490.llll.4lep.root''"

text \<open>
  An event with three leptons that passes the cut (its third record has charge 0 and
  type 22), in a batch of category \<^verbatim>\<open>"Data"\<close>.
\<close>

definition ex_event_three :: event where
  "ex_event_three =
    \<lparr> lep = [ex_lepton 30000 1 11, ex_lepton 30000 (-1) 11, ex_lepton 40000 0 22],
      mcWeight = 2, scaleFactor = 1, scaleFactorUP = 1.1, scaleFactorDOWN = 0.9 \<rparr>"

definition ex_events_three :: events where
  "ex_events_three =
    \<lparr> metadata = [''dataset_category'' \<mapsto> ''Data''], array = [ex_event_three] \<rparr>"

definition ex_filename_Zee :: string where
  "ex_filename_Zee = prefix @ ''MC/mc_361106.Zee.4lep.root''"

definition ex_filename_data :: string where
  "ex_filename_data = prefix @ ''Data/data_A.4lep.root''"

text \<open>
  A datasource factory that records the category and the files of the category, and a
  toy executor that runs the processor once, on a batch of two events attributed to the
  first file, and yields the result or raises the processor's error.
\<close>

definition ex_make_datasource :: datasource_factory where
  "ex_make_datasource fs name query =
    \<lparr> src_metadata = [''dataset_category'' \<mapsto> name],
      src_files = (case map_of fs name of None \<Rightarrow> [] | Some files \<Rightarrow> files) \<rparr>"

definition ex_execute :: executor where
  "ex_execute proc source =
    (case src_files source of
       [] \<Rightarrow> ([], None)
     | f # _ \<Rightarrow>
        (case proc \<lparr> metadata = (src_metadata source)(''filename'' \<mapsto> f),
                     array = [ex_event_pass, ex_event_fail] \<rparr> of
           Inl e \<Rightarrow> ([], Some e)
         | Inr r \<Rightarrow> ([r], None)))"

text \<open>A tree event with \<open>n\<close> leptons (at most five).\<close>

definition ex_tree_event :: "nat \<Rightarrow> tree_event" where
  "ex_tree_event n =
    \<lparr> e_lep_n = int n,
      e_lep_pt = replicate n 20000, e_lep_eta = replicate n 0, e_lep_phi = replicate n 0,
      e_lep_E = replicate n 30000, e_lep_charge = take n [1, -1, 1, -1, 1],
      e_lep_type = take n [11, 11, 13, 13, 13],
      e_mcWeight = 2, e_scaleFactor_ELE = 1, e_scaleFactor_MUON = 2,
      e_scaleFactor_LepTRIGGER = 3, e_scaleFactor_PILEUP = 5 \<rparr>"

section \<open>Properties\<close>

subsection \<open>Auxiliary facts\<close>

lemma ak_or2_same_length:
  "length xs = length ys \<Longrightarrow> ak_or2 xs ys = map (\<lambda>(x, y). x \<or> y) (zip xs ys)"
  by (induction xs ys rule: list_induct2) simp_all

lemma ak_and2_same_length:
  "length xs = length ys \<Longrightarrow> ak_and2 xs ys = map (\<lambda>(x, y). x \<and> y) (zip xs ys)"
  by (induction xs ys rule: list_induct2) simp_all

lemma ak_or2_Nil2: "ak_or2 xs [] = xs"
  by (cases xs) simp_all

lemma ak_and2_Nil2: "ak_and2 xs [] = xs"
  by (cases xs) simp_all

lemma ak_any_axis0_three:
  "ak_any_axis0 [map p ss, map q ss, map r ss] = map (\<lambda>s. p s \<or> q s \<or> r s) ss"
  by (induction ss) (simp_all add: ak_any_axis0_def ak_or2_Nil2)

lemma ak_all_axis0_two:
  "length xs = length ys \<Longrightarrow> ak_all_axis0 [map p xs, map q ys]
     = map (\<lambda>(x, y). p x \<and> q y) (zip xs ys)"
  by (induction xs ys rule: list_induct2) (simp_all add: ak_all_axis0_def ak_and2_Nil2)

lemma lepton_filter_same_length:
  assumes "length lep_charge = length lep_type"
  shows "lepton_filter lep_charge lep_type =
    map (\<lambda>(c, t). sum_int64 c = 0
              \<and> (sum_int64 t = 44 \<or> sum_int64 t = 48 \<or> sum_int64 t = 52))
      (zip lep_charge lep_type)"
proof -
  have "length (ak_sum_axis1 lep_charge) = length (ak_sum_axis1 lep_type)"
    using assms by (simp add: ak_sum_axis1_def)
  then show ?thesis
    by (simp add: lepton_filter_def ak_any_axis0_three ak_all_axis0_two)
       (auto simp add: ak_sum_axis1_def zip_map_map)
qed

lemma sum_int64_of_int: "sum_int64 xs = word_of_int (sum_list xs)"
  by (induction xs) (simp_all add: sum_int64_def)

lemma word64_of_int_eq_small:
  assumes "\<bar>x\<bar> < 2 ^ 63" and "0 \<le> k" and "k < 2 ^ 63"
  shows "(word_of_int x :: 64 word) = word_of_int k \<longleftrightarrow> x = k"
proof
  assume "(word_of_int x :: 64 word) = word_of_int k"
  then have "x mod 2 ^ 64 = k mod 2 ^ 64"
    by (simp add: word_of_int_eq_iff take_bit_eq_mod)
  then have "(x - k) mod 2 ^ 64 = 0"
    by (simp add: mod_eq_dvd_iff)
  then obtain q where q: "x - k = 2 ^ 64 * q" by (auto simp: mod_eq_0_iff_dvd)
  have "\<bar>x - k\<bar> < 2 ^ 64" using assms by simp
  with q have "q = 0" by (cases "q = 0") (auto simp: abs_mult)
  with q show "x = k" by simp
qed simp

lemma sum_int64_eq_iff:
  assumes "\<bar>sum_list xs\<bar> < 2 ^ 63"
  shows "sum_int64 xs = 0 \<longleftrightarrow> sum_list xs = 0"
    and "sum_int64 xs = 44 \<longleftrightarrow> sum_list xs = 44"
    and "sum_int64 xs = 48 \<longleftrightarrow> sum_list xs = 48"
    and "sum_int64 xs = 52 \<longleftrightarrow> sum_list xs = 52"
  using word64_of_int_eq_small [OF assms, of 0] word64_of_int_eq_small [OF assms, of 44]
    word64_of_int_eq_small [OF assms, of 48] word64_of_int_eq_small [OF assms, of 52]
  by (simp_all add: sum_int64_of_int)

lemma sum_type_count:
  "set t \<subseteq> {11, 13} \<Longrightarrow>
     sum_list t = 11 * int (count_list t 11) + 13 * int (count_list t 13)"
  by (induction t) auto

lemma flavour_arith:
  fixes a b :: nat
  shows "(11 * int a + 13 * int b = 44 \<or> 11 * int a + 13 * int b = 48
          \<or> 11 * int a + 13 * int b = 52)
     \<longleftrightarrow> (a = 4 \<and> b = 0) \<or> (a = 2 \<and> b = 2) \<or> (a = 0 \<and> b = 4)"
proof -
  have "b \<le> 4 \<or> 5 \<le> b" by arith
  then show ?thesis
  proof
    assume "b \<le> 4"
    then consider "b = 0" | "b = 1" | "b = 2" | "b = 3" | "b = 4" by arith
    then show ?thesis by cases (simp_all, arith+)
  next
    assume "5 \<le> b"
    then show ?thesis by arith
  qed
qed


lemma mask_of_predicate: "map fst (filter snd (zip xs (map P xs))) = filter P xs"
  by (induction xs) simp_all

lemma map_zip_map_self:
  "map (\<lambda>(b, x). g b x) (zip (map f xs) xs) = map (\<lambda>x. g (f x) x) xs"
  by (induction xs) simp_all

lemma lepton_filter_events:
  "lepton_filter (map (map charge) (map lep evs)) (map (map typeid) (map lep evs))
     = map passes_cut evs"
proof -
  have "lepton_filter (map (map charge) (map lep evs)) (map (map typeid) (map lep evs))
      = map (\<lambda>(c, t). sum_int64 c = 0
                \<and> (sum_int64 t = 44 \<or> sum_int64 t = 48 \<or> sum_int64 t = 52))
          (zip (map (map charge) (map lep evs)) (map (map typeid) (map lep evs)))"
    by (rule lepton_filter_same_length) simp
  also have "\<dots> = map passes_cut evs"
    by (induction evs) (simp_all add: passes_cut_def)
  finally show ?thesis .
qed

lemma select_events:
  "ak_getitem_mask evs
     (lepton_filter (map (map charge) (map lep evs)) (map (map typeid) (map lep evs)))
   = Inr (filter passes_cut evs)"
  unfolding lepton_filter_events
  by (simp add: ak_getitem_mask_def mask_of_predicate)

lemma ak_getitem_col_ok:
  "list_all (\<lambda>xs. k < length xs) xss \<Longrightarrow> ak_getitem_col xss k = Inr (map (\<lambda>xs. xs ! k) xss)"
  by (simp add: ak_getitem_col_def)

lemma calc_mllll_ok:
  assumes "list_all (\<lambda>ls. 4 \<le> length ls) leptons"
  shows "calc_mllll L leptons
     = Inr (map (\<lambda>ls. mass4 L (ls ! 0) (ls ! 1) (ls ! 2) (ls ! 3) / 1000) leptons)"
proof -
  have c: "list_all (\<lambda>xs. k < length xs) leptons" if "k < 4" for k
    using assms that by (auto simp: list_all_iff)
  have z: "map (\<lambda>(l0, l1, l2, l3). mass4 L l0 l1 l2 l3 / 1000)
             (zip (map (\<lambda>xs. xs ! 0) leptons) (zip (map (\<lambda>xs. xs ! 1) leptons)
               (zip (map (\<lambda>xs. xs ! 2) leptons) (map (\<lambda>xs. xs ! 3) leptons))))
        = map (\<lambda>ls. mass4 L (ls ! 0) (ls ! 1) (ls ! 2) (ls ! 3) / 1000) leptons"
    by (induction leptons) simp_all
  have c0: "ak_getitem_col leptons 0 = Inr (map (\<lambda>xs. xs ! 0) leptons)"
    by (rule ak_getitem_col_ok) (rule c, simp)
  have c1: "ak_getitem_col leptons 1 = Inr (map (\<lambda>xs. xs ! 1) leptons)"
    by (rule ak_getitem_col_ok) (rule c, simp)
  have c2: "ak_getitem_col leptons 2 = Inr (map (\<lambda>xs. xs ! 2) leptons)"
    by (rule ak_getitem_col_ok) (rule c, simp)
  have c3: "ak_getitem_col leptons 3 = Inr (map (\<lambda>xs. xs ! 3) leptons)"
    by (rule ak_getitem_col_ok) (rule c, simp)
  show ?thesis
    unfolding calc_mllll_def c0 c1 c2 c3
    by (simp only: sum.case z)
qed

lemma calc_mllll_Inl:
  assumes "calc_mllll L leptons = Inl e"
  shows "\<exists>k<4. e = LeptonIndexError k \<and> \<not> list_all (\<lambda>ls. k < length ls) leptons"
  using assms unfolding calc_mllll_def ak_getitem_col_def
  by (auto split: if_splits)

lemma calc_mllll_length:
  assumes "calc_mllll L leptons = Inr m"
  shows "length m = length leptons"
  using assms unfolding calc_mllll_def ak_getitem_col_def
  by (auto split: if_splits)

lemma process_Data:
  assumes "metadata ev ''dataset_category'' = Some ''Data''"
  shows "process L infos ev =
    (case calc_mllll L (map lep (filter passes_cut (array ev))) of
       Inl e \<Rightarrow> Inl e
     | Inr m \<Rightarrow>
        Inr \<lparr> data = \<lparr> axes = axes new_hist_data,
                       fills = [\<lparr> fill_mllll = m, fill_dataset = None,
                                  fill_variation = None, fill_weight = None \<rparr>] \<rparr>,
              MC = new_hist_MC \<rparr>)"
  using assms unfolding process_def Let_def select_events
  by (simp add: hist_fill_def new_hist_data_def split: sum.splits)

lemma process_MC:
  assumes "metadata ev ''dataset_category'' = Some c" and "c \<noteq> ''Data''"
  shows "process L infos ev =
    (case calc_mllll L (map lep (filter passes_cut (array ev))) of
       Inl e \<Rightarrow> Inl e
     | Inr m \<Rightarrow>
    (case metadata ev ''filename'' of
       None \<Rightarrow> Inl (KeyError ''filename'')
     | Some filename \<Rightarrow>
    (case findall_first filename of
       None \<Rightarrow> Inl IndexError
     | Some sample \<Rightarrow>
    (case get_xsec_weight infos sample of
       Inl e \<Rightarrow> Inl e
     | Inr xw \<Rightarrow>
        Inr \<lparr> data = new_hist_data,
              MC = \<lparr> axes = axes new_hist_MC,
                     fills =
                      [\<lparr> fill_mllll = m, fill_dataset = Some c,
                         fill_variation = Some ''nominal'',
                         fill_weight = Some (map (\<lambda>e. xw * mcWeight e * scaleFactor e)
                                               (filter passes_cut (array ev))) \<rparr>,
                       \<lparr> fill_mllll = m, fill_dataset = Some c,
                         fill_variation = Some ''scaleFactorUP'',
                         fill_weight = Some (map (\<lambda>e. xw * mcWeight e * scaleFactorUP e)
                                               (filter passes_cut (array ev))) \<rparr>,
                       \<lparr> fill_mllll = m, fill_dataset = Some c,
                         fill_variation = Some ''scaleFactorDOWN'',
                         fill_weight = Some (map (\<lambda>e. xw * mcWeight e * scaleFactorDOWN e)
                                               (filter passes_cut (array ev))) \<rparr>,
                       \<lparr> fill_mllll = map (\<lambda>x. x * 1.01) m, fill_dataset = Some c,
                         fill_variation = Some ''m4lUP'',
                         fill_weight = Some (map (\<lambda>e. xw * mcWeight e * scaleFactor e)
                                               (filter passes_cut (array ev))) \<rparr>,
                       \<lparr> fill_mllll = map (\<lambda>x. x * 0.99) m, fill_dataset = Some c,
                         fill_variation = Some ''m4lDOWN'',
                         fill_weight = Some (map (\<lambda>e. xw * mcWeight e * scaleFactor e)
                                               (filter passes_cut (array ev))) \<rparr>] \<rparr> \<rparr>))))"
  using assms unfolding process_def Let_def select_events map_zip_map_self
  by (simp add: hist_fill_def fill_MC_def new_hist_MC_def
        split: sum.splits option.splits)

lemma get_xsec_weight_zero_division:
  assumes "infos sample = Some xsec_map"
    and "xsec_map ''xsec'' = Some xsec"
    and "xsec_map ''sumw'' = Some sumw"
    and "xsec_map ''red_eff'' = Some red_eff"
    and "sumw * red_eff = 0"
  shows "get_xsec_weight infos sample = Inl ZeroDivisionError"
  using assms by (simp add: get_xsec_weight_def)

lemma get_xsec_weight_Inl:
  assumes "get_xsec_weight infos s = Inl e"
  shows "(\<exists>k. e = KeyError k) \<or> e = ZeroDivisionError"
  using assms unfolding get_xsec_weight_def Let_def
  by (auto split: option.splits if_splits)

lemma process_Inl:
  assumes "process L infos ev = Inl e"
  shows "(\<exists>k. e = KeyError k) \<or> e = ZeroDivisionError \<or> e = IndexError
    \<or> (\<exists>k<4. e = LeptonIndexError k
          \<and> \<not> list_all (\<lambda>ls. k < length ls) (map lep (filter passes_cut (array ev))))"
proof (cases "metadata ev ''dataset_category''")
  case None
  then show ?thesis using assms by (auto simp add: process_def)
next
  case (Some c)
  show ?thesis
  proof (cases "c = ''Data''")
    case True
    then show ?thesis
      using assms Some calc_mllll_Inl [of L "map lep (filter passes_cut (array ev))"]
      by (auto simp: process_Data split: sum.splits)
  next
    case False
    then show ?thesis
      using assms Some calc_mllll_Inl [of L "map lep (filter passes_cut (array ev))"]
        get_xsec_weight_Inl [of infos]
      by (auto simp: process_MC split: sum.splits option.splits)
  qed
qed

lemma process_no_lepton_index_error:
  assumes "list_all (\<lambda>e. 4 \<le> length (lep e)) (array ev)"
  shows "process L infos ev \<noteq> Inl (LeptonIndexError k)"
proof
  assume "process L infos ev = Inl (LeptonIndexError k)"
  then have "k < 4 \<and> \<not> list_all (\<lambda>ls. k < length ls) (map lep (filter passes_cut (array ev)))"
    using process_Inl [of L infos ev "LeptonIndexError k"] by auto
  then show False using assms by (auto simp: list_all_iff)
qed

lemma sequence_err_map_Inr:
  assumes "\<And>x. x \<in> set xs \<Longrightarrow> f x = Inr (g x)"
  shows "sequence_err (map f xs) = Inr (map g xs)"
  using assms by (induction xs) simp_all

lemma zip_leptons_length:
  assumes "lep_n_counts_leptons e"
  shows "\<exists>ls. zip_leptons (select_columns e) = Inr ls \<and> int (length ls) = e_lep_n e"
  using assms
  by (auto simp: lep_n_counts_leptons_def zip_leptons_def select_columns_def Let_def)

lemma foldl_keep_last:
  "foldl (\<lambda>coffea_info item. Some item) a items
     = (if items = [] then a else Some (last items))"
  by (induction items arbitrary: a) simp_all

lemma run_updates_stream_done:
  "run_updates_stream (items, None) name
     = Inr (if items = [] then None else Some (last items))"
  by (simp add: run_updates_stream_def foldl_keep_last)

lemma make_jobs_ok:
  assumes "list_all (\<lambda>source. src_metadata source ''dataset_category'' \<noteq> None) datasources"
  shows "make_jobs datasources exec
     = Inr (map (\<lambda>source. (exec source, the (src_metadata source ''dataset_category'')))
              datasources)"
  unfolding make_jobs_def
  by (rule sequence_err_map_Inr) (use assms in \<open>auto simp: list_all_iff\<close>)

lemma gather_ok:
  assumes "sequence_err outcomes = Inr xs"
  shows "gather sched outcomes = Inr xs"
  using assms by (simp add: gather_def)

lemma getitems_Some: "getitems key (map Some ds) = Inr (map key ds)"
  unfolding getitems_def map_map
  by (rule sequence_err_map_Inr) simp

lemma py_sum_from_Hist:
  assumes "list_all (\<lambda>h. axes h = axes a) hs"
  shows "py_sum_from (Hist a) hs
     = Inr (Hist \<lparr> axes = axes a, fills = fills a @ concat (map fills hs) \<rparr>)"
  using assms
proof (induction hs arbitrary: a)
  case Nil
  then show ?case by simp
next
  case (Cons h hs)
  then show ?case by (simp add: hist_add_def)
qed

lemma py_sum_same_axes:
  assumes "hs \<noteq> []" and "list_all (\<lambda>h. axes h = A) hs"
  shows "py_sum hs = Inr (Hist \<lparr> axes = A, fills = concat (map fills hs) \<rparr>)"
proof (cases hs)
  case Nil
  with assms show ?thesis by simp
next
  case (Cons h t)
  with assms have "list_all (\<lambda>x. axes x = axes h) t" and "axes h = A"
    by (simp_all add: list_all_iff)
  then show ?thesis
    using Cons by (simp add: py_sum_def py_sum_from_Hist)
qed

lemma fileset_keys_eq: "fileset_keys = [''Data'', z_ttbar, zzstar, signal]"
  by (simp add: fileset_keys_def fileset_def)

lemma ak_getitem_col_Inl_iff:
  "ak_getitem_col xss k = Inl e \<longleftrightarrow>
     e = LeptonIndexError k \<and> \<not> list_all (\<lambda>xs. k < length xs) xss"
  by (auto simp: ak_getitem_col_def)

lemma calc_mllll_Inl_iff:
  "calc_mllll L leptons = Inl e \<longleftrightarrow>
     (\<exists>k<4. e = LeptonIndexError k
        \<and> \<not> list_all (\<lambda>ls. k < length ls) leptons
        \<and> (\<forall>j<k. list_all (\<lambda>ls. j < length ls) leptons))"
  (is "?lhs \<longleftrightarrow> ?rhs")
proof -
  let ?ok = "\<lambda>k. list_all (\<lambda>ls. k < length ls) leptons"
  have mono: "?ok j" if "?ok k" and "j \<le> k" for j k
    using that by (auto simp: list_all_iff)
  have first: "\<exists>k<4. \<not> ?ok k \<and> (\<forall>j<k. ?ok j)" if "\<not> ?ok 3"
  proof (cases "?ok 0")
    case False
    then show ?thesis by (intro exI [of _ 0]) simp
  next
    case ok0: True
    show ?thesis
    proof (cases "?ok 1")
      case False
      with ok0 show ?thesis by (intro exI [of _ 1]) simp
    next
      case ok1: True
      show ?thesis
      proof (cases "?ok 2")
        case False
        have "?ok j" if "j < 2" for j
          using mono [OF ok1, of j] that by simp
        with False show ?thesis by (intro exI [of _ 2]) simp
      next
        case ok2: True
        have "?ok j" if "j < 3" for j
          using mono [OF ok2, of j] that by simp
        with \<open>\<not> ?ok 3\<close> show ?thesis by (intro exI [of _ 3]) simp
      qed
    qed
  qed
  have val: "calc_mllll L leptons = Inl (LeptonIndexError k)"
    if "k < 4" and "\<not> ?ok k" and "\<forall>j<k. ?ok j" for k
  proof -
    have inr: "ak_getitem_col leptons j = Inr (map (\<lambda>xs. xs ! j) leptons)" if "j < k" for j
      using \<open>\<forall>j<k. ?ok j\<close> that by (simp add: ak_getitem_col_def)
    have inl: "ak_getitem_col leptons k = Inl (LeptonIndexError k)"
      using \<open>\<not> ?ok k\<close> by (simp add: ak_getitem_col_def)
    from \<open>k < 4\<close> consider "k = 0" | "k = 1" | "k = 2" | "k = 3" by arith
    then show ?thesis
    proof cases
      case 1
      then show ?thesis using inl by (simp add: calc_mllll_def)
    next
      case 2
      then show ?thesis using inl inr [of 0] by (simp add: calc_mllll_def)
    next
      case 3
      then show ?thesis using inl inr [of 0] inr [of 1] by (simp add: calc_mllll_def)
    next
      case 4
      then show ?thesis
        using inl inr [of 0] inr [of 1] inr [of 2] by (simp add: calc_mllll_def)
    qed
  qed
  show ?thesis
  proof
    assume l: ?lhs
    have "\<not> ?ok 3"
    proof
      assume "?ok 3"
      then have "list_all (\<lambda>ls. 4 \<le> length ls) leptons"
        by (auto simp: list_all_iff Suc_le_eq [symmetric])
      from calc_mllll_ok [OF this, of L] l show False by simp
    qed
    from first [OF this] obtain k where k: "k < 4" "\<not> ?ok k" "\<forall>j<k. ?ok j" by blast
    from val [OF this] l have "e = LeptonIndexError k" by simp
    with k show ?rhs by blast
  next
    assume ?rhs
    then obtain k where "k < 4" "e = LeptonIndexError k" "\<not> ?ok k" "\<forall>j<k. ?ok j" by blast
    with val [of k] show ?lhs by simp
  qed
qed

lemma get_xsec_weight_Inl_iff:
  "get_xsec_weight infos s = Inl e \<longleftrightarrow>
     (infos s = None \<and> e = KeyError s)
     \<or> (\<exists>m. infos s = Some m
          \<and> ((m ''xsec'' = None \<and> e = KeyError ''xsec'')
             \<or> (\<exists>x. m ''xsec'' = Some x
                  \<and> ((m ''sumw'' = None \<and> e = KeyError ''sumw'')
                     \<or> (\<exists>w. m ''sumw'' = Some w
                          \<and> ((m ''red_eff'' = None \<and> e = KeyError ''red_eff'')
                             \<or> (\<exists>r. m ''red_eff'' = Some r \<and> w * r = 0
                                  \<and> e = ZeroDivisionError)))))))"
  unfolding get_xsec_weight_def Let_def
  by (auto split: option.splits if_splits)

lemma process_Inl_iff:
  "process L infos ev = Inl e \<longleftrightarrow>
     (metadata ev ''dataset_category'' = None \<and> e = KeyError ''dataset_category'')
     \<or> (\<exists>c. metadata ev ''dataset_category'' = Some c
          \<and> (calc_mllll L (map lep (filter passes_cut (array ev))) = Inl e
             \<or> (\<exists>m. calc_mllll L (map lep (filter passes_cut (array ev))) = Inr m
                  \<and> c \<noteq> ''Data''
                  \<and> ((metadata ev ''filename'' = None \<and> e = KeyError ''filename'')
                     \<or> (\<exists>f. metadata ev ''filename'' = Some f
                          \<and> ((findall_first f = None \<and> e = IndexError)
                             \<or> (\<exists>s. findall_first f = Some s
                                  \<and> get_xsec_weight infos s = Inl e)))))))"
proof (cases "metadata ev ''dataset_category''")
  case None
  then show ?thesis by (auto simp: process_def)
next
  case (Some c)
  show ?thesis
  proof (cases "c = ''Data''")
    case True
    with Some have d: "metadata ev ''dataset_category'' = Some ''Data''" by simp
    show ?thesis
      unfolding process_Data [OF d] using d by (auto split: sum.splits)
  next
    case False
    show ?thesis
      unfolding process_MC [OF Some False] using Some False
      by (auto split: sum.splits option.splits)
  qed
qed

lemma sequence_err_Inl_mem:
  "sequence_err rs = Inl e \<Longrightarrow> Inl e \<in> set rs"
  by (induction rs rule: sequence_err.induct) (auto split: sum.splits)

lemma sequence_err_Inl_ex:
  "Inl e \<in> set rs \<Longrightarrow> \<exists>e'. sequence_err rs = Inl e'"
  by (induction rs rule: sequence_err.induct) (auto split: sum.splits)

lemma gather_Inl_mem:
  assumes "gather sched outcomes = Inl e"
  shows "Inl e \<in> set outcomes"
proof (cases "sequence_err outcomes")
  case (Inr xs)
  with assms show ?thesis by (simp add: gather_def)
next
  case (Inl e0)
  let ?es = "concat (map (\<lambda>i. if i < length outcomes
                                then (case outcomes ! i of Inl e \<Rightarrow> [e] | Inr _ \<Rightarrow> [])
                                else []) sched)"
  have mem: "Inl x \<in> set outcomes" if "x \<in> set ?es" for x
    using that by (auto split: if_splits sum.splits)
  show ?thesis
  proof (cases ?es)
    case Nil
    with assms Inl have "e = e0" by (simp add: gather_def)
    with Inl show ?thesis by (simp add: sequence_err_Inl_mem)
  next
    case (Cons x xs)
    with assms Inl have "e = x" by (simp add: gather_def)
    moreover from Cons have "x \<in> set ?es" by simp
    ultimately show ?thesis using mem by blast
  qed
qed

lemma gather_Inl_ex:
  assumes "Inl e \<in> set outcomes"
  shows "\<exists>e'. gather sched outcomes = Inl e'"
proof -
  from sequence_err_Inl_ex [OF assms] obtain e0 where "sequence_err outcomes = Inl e0" ..
  then show ?thesis by (auto simp: gather_def split: list.splits)
qed

lemma make_jobs_Inl:
  "make_jobs datasources exec = Inl e \<Longrightarrow> e = KeyError ''dataset_category''"
  unfolding make_jobs_def
  by (drule sequence_err_Inl_mem) (auto split: option.splits)

lemma getitems_Inl: "getitems key hs = Inl e \<Longrightarrow> e = TypeError"
  unfolding getitems_def
  by (drule sequence_err_Inl_mem) (auto split: option.splits)

lemma py_sum_from_Inl:
  "py_sum_from acc hs = Inl e \<Longrightarrow> e = LibError ''axes of the histograms differ''"
  by (induction acc hs rule: py_sum_from.induct)
     (auto simp: hist_add_def split: sum.splits if_splits)

lemma py_sum_Inl: "py_sum hs = Inl e \<Longrightarrow> e = LibError ''axes of the histograms differ''"
  unfolding py_sum_def by (rule py_sum_from_Inl)

lemma produce_all_histograms_Inl_iff:
  "produce_all_histograms L infos make_datasource execute sched = Inl e \<longleftrightarrow>
     make_jobs (map (\<lambda>k. make_datasource fileset k get_lepton_query) fileset_keys)
         (execute (process L infos)) = Inl e
     \<or> (\<exists>jobs. make_jobs (map (\<lambda>k. make_datasource fileset k get_lepton_query) fileset_keys)
                   (execute (process L infos)) = Inr jobs
          \<and> (gather sched (map (\<lambda>(stream, name). run_updates_stream stream name) jobs) = Inl e
             \<or> (\<exists>hs. gather sched (map (\<lambda>(stream, name). run_updates_stream stream name) jobs)
                         = Inr hs
                  \<and> (getitems data hs = Inl e
                     \<or> (\<exists>ds. getitems data hs = Inr ds
                          \<and> (py_sum ds = Inl e
                             \<or> (\<exists>full_data. py_sum ds = Inr full_data
                                  \<and> (getitems MC hs = Inl e
                                     \<or> (\<exists>ms. getitems MC hs = Inr ms
                                          \<and> py_sum ms = Inl e)))))))))"
  unfolding produce_all_histograms_def Let_def
  by (auto split: sum.splits)

lemma run_updates_stream_eq:
  "run_updates_stream stream name =
     (case snd stream of
        Some e0 \<Rightarrow> Inl (Failure name e0)
      | None \<Rightarrow> Inr (if fst stream = [] then None else Some (last (fst stream))))"
  by (cases stream) (simp add: run_updates_stream_def foldl_keep_last split: option.splits)

subsection \<open>Evaluating the concrete inputs\<close>

lemma ex_events_category:
  "metadata (ex_events c fn) ''dataset_category'' = Some c"
  by (simp add: ex_events_def)

lemma ex_events_filename:
  "metadata (ex_events c fn) ''filename'' = Some fn"
  by (simp add: ex_events_def)

lemma ex_events_passing:
  "filter passes_cut (array (ex_events c fn)) = [ex_event_pass]"
  by (simp add: ex_events_def passes_cut_def sum_int64_def ex_event_pass_def
        ex_event_fail_def ex_lepton_def)

lemma ex_events_mllll:
  "calc_mllll ex_veclib (map lep (filter passes_cut (array (ex_events c fn)))) = Inr [125]"
  unfolding ex_events_passing
  by (simp add: calc_mllll_def ak_getitem_col_def ex_event_pass_def mass4_def
        ex_veclib_def ex_lepton_def)

lemma ex_filename_sample: "findall_first ex_filename = Some ''ggH125_ZZ4lep''"
  by (simp add: ex_filename_def prefix_def match_here_def is_digit_def)

lemma ex_infos_weight: "get_xsec_weight ex_infos ''ggH125_ZZ4lep'' = Inr (3 / 2)"
  by (simp add: get_xsec_weight_def ex_infos_def ex_entry_def)

lemma ex_llll_sample: "findall_first ex_filename_llll = Some ''llll''"
  by (simp add: ex_filename_llll_def prefix_def match_here_def is_digit_def)

lemma ex_llll_weight: "get_xsec_weight ex_infos ''llll'' = Inr (4 / 3)"
  by (simp add: get_xsec_weight_def ex_infos_def ex_entry_def)

lemma signal_not_Data: "signal \<noteq> ''Data''"
  by (simp add: signal_def)

lemma zzstar_not_Data: "zzstar \<noteq> ''Data''"
  by (simp add: zzstar_def)

lemma ex_events_three_mllll:
  "calc_mllll ex_veclib (map lep (filter passes_cut (array ex_events_three)))
     = Inl (LeptonIndexError 3)"
  by (simp add: ex_events_three_def passes_cut_def sum_int64_def ex_event_three_def
        ex_lepton_def
        calc_mllll_def ak_getitem_col_def)

lemma ex_Zee_sample: "findall_first ex_filename_Zee = Some ''Zee''"
  by (simp add: ex_filename_Zee_def prefix_def match_here_def is_digit_def)

lemma ex_Zee_weight: "get_xsec_weight ex_infos ''Zee'' = Inr 130"
  by (simp add: get_xsec_weight_def ex_infos_def ex_entry_def)

lemma z_ttbar_not_Data: "z_ttbar \<noteq> ''Data''"
  by (simp add: z_ttbar_def)

lemma ex_first_files:
  "\<exists>fs. map_of fileset ''Data'' = Some (ex_filename_data # fs)"
  "\<exists>fs. map_of fileset z_ttbar = Some (ex_filename_Zee # fs)"
  "\<exists>fs. map_of fileset zzstar = Some (ex_filename_llll # fs)"
  "\<exists>fs. map_of fileset signal = Some (ex_filename # fs)"
  by (simp_all add: fileset_def ex_filename_data_def ex_filename_Zee_def
        ex_filename_llll_def ex_filename_def z_ttbar_def zzstar_def signal_def)

lemma ex_execute_first_file:
  assumes "\<exists>fs. map_of fileset k = Some (f # fs)"
  shows "ex_execute proc (ex_make_datasource fileset k q) =
    (case proc (ex_events k f) of Inl e \<Rightarrow> ([], Some e) | Inr r \<Rightarrow> ([r], None))"
  using assms by (auto simp: ex_execute_def ex_make_datasource_def ex_events_def)

lemma ex_stream_Data:
  "\<exists>r. ex_execute (process ex_veclib ex_infos) (ex_make_datasource fileset ''Data'' q)
          = ([r], None)
       \<and> axes (data r) = axes new_hist_data \<and> axes (MC r) = axes new_hist_MC
       \<and> length (fills (data r)) = 1 \<and> length (fills (MC r)) = 0"
  unfolding ex_execute_first_file [OF ex_first_files(1)]
    process_Data [OF ex_events_category]
  by (simp add: ex_events_mllll new_hist_MC_def)

lemma ex_stream_MC:
  assumes "\<exists>fs. map_of fileset k = Some (f # fs)" and "k \<noteq> ''Data''"
    and "findall_first f = Some s" and "get_xsec_weight ex_infos s = Inr xw"
  shows "\<exists>r. ex_execute (process ex_veclib ex_infos) (ex_make_datasource fileset k q)
          = ([r], None)
       \<and> axes (data r) = axes new_hist_data \<and> axes (MC r) = axes new_hist_MC
       \<and> length (fills (data r)) = 0 \<and> length (fills (MC r)) = 5"
  unfolding ex_execute_first_file [OF assms(1)]
    process_MC [OF ex_events_category assms(2)]
  by (simp add: ex_events_mllll ex_events_filename assms(3,4) new_hist_data_def)

lemma ex_stream_missing_sample:
  assumes "\<exists>fs. map_of fileset k = Some (f # fs)" and "k \<noteq> ''Data''"
    and "findall_first f = Some s"
  shows "ex_execute (process ex_veclib Map.empty) (ex_make_datasource fileset k q)
          = ([], Some (KeyError s))"
  unfolding ex_execute_first_file [OF assms(1)]
    process_MC [OF ex_events_category assms(2)]
  by (simp add: ex_events_mllll ex_events_filename assms(3) get_xsec_weight_def)

lemma ex_stream_Data_any_infos:
  "\<exists>r. ex_execute (process ex_veclib infos) (ex_make_datasource fileset ''Data'' q)
          = ([r], None)"
  unfolding ex_execute_first_file [OF ex_first_files(1)]
    process_Data [OF ex_events_category]
  by (simp add: ex_events_mllll)

lemma ex_make_datasource_category:
  "src_metadata (ex_make_datasource fs k q) ''dataset_category'' = Some k"
  by (simp add: ex_make_datasource_def)

lemma ex_data_no_sample: "findall_first ex_filename_data = None"
  by (simp add: ex_filename_data_def prefix_def match_here_def is_digit_def)

subsection \<open>The query\<close>

text \<open>
  Claim C4. The query keeps exactly the events with \<open>lep_n = 4\<close>, in their order:
  the rows it delivers correspond one to one to these events. Each row carries the
  lepton columns (pt, eta, phi, energy, charge, type) and the Monte Carlo weight of its
  event unchanged, and three scale-factor products: \<open>scaleFactor\<close> is the product of
  the four scale factors of the event, \<open>scaleFactorUP\<close> is that product times 1.1 and
  \<open>scaleFactorDOWN\<close> is that product times 0.9.
\<close>

theorem get_lepton_query_selects:
  "length (get_lepton_query source) = length (filter (\<lambda>e. e_lep_n e = 4) source)
   \<and> (\<forall>i < length (filter (\<lambda>e. e_lep_n e = 4) source).
        (let e = filter (\<lambda>e. e_lep_n e = 4) source ! i;
             r = get_lepton_query source ! i
         in col_lep_pt r = e_lep_pt e \<and> col_lep_eta r = e_lep_eta e
            \<and> col_lep_phi r = e_lep_phi e \<and> col_lep_energy r = e_lep_E e
            \<and> col_lep_charge r = e_lep_charge e \<and> col_lep_typeid r = e_lep_type e
            \<and> col_mcWeight r = e_mcWeight e
            \<and> col_scaleFactor r =
                e_scaleFactor_ELE e * e_scaleFactor_MUON e * e_scaleFactor_LepTRIGGER e
                  * e_scaleFactor_PILEUP e
            \<and> col_scaleFactorUP r = col_scaleFactor r * 1.1
            \<and> col_scaleFactorDOWN r = col_scaleFactor r * 0.9))"
  by (simp add: get_lepton_query_def select_columns_def Let_def)

theorem get_lepton_query_selects_witness:
  "get_lepton_query [ex_tree_event 4, ex_tree_event 3, ex_tree_event 5]
     = [select_columns (ex_tree_event 4)]
   \<and> col_scaleFactor (get_lepton_query [ex_tree_event 4, ex_tree_event 3, ex_tree_event 5] ! 0) = 30
   \<and> col_scaleFactorUP (get_lepton_query [ex_tree_event 4, ex_tree_event 3, ex_tree_event 5] ! 0) = 33
   \<and> col_scaleFactorDOWN (get_lepton_query [ex_tree_event 4, ex_tree_event 3, ex_tree_event 5] ! 0) = 27"
  using get_lepton_query_selects [of "[ex_tree_event 4, ex_tree_event 3, ex_tree_event 5]"]
  by (simp add: get_lepton_query_def ex_tree_event_def select_columns_def)

subsection \<open>The cut\<close>

text \<open>
  Claim C2. Given the per-event lepton charges and the per-event lepton type
  identifiers of the same events, \<open>lepton_filter\<close> returns one flag per event. The
  flag of an event is true exactly when the 64-bit sum of its charges is 0 and the
  64-bit sum of its type identifiers is 44, 48 or 52. For an event whose two sums fit
  in 64 bits (their absolute value is below \<open>2^63\<close>), these are the sums themselves:
  the event is kept exactly when its charges sum to 0 and its type identifiers sum to
  44, 48 or 52; and when, moreover, its identifiers are all 11 (electron) or 13 (muon),
  exactly when its charges sum to 0 and it has four electrons, four muons, or two of
  each.
\<close>

theorem lepton_filter_keeps:
  assumes "length lep_charge = length lep_type"
  shows "length (lepton_filter lep_charge lep_type) = length lep_charge
    \<and> (\<forall>i < length lep_charge.
          lepton_filter lep_charge lep_type ! i
            \<longleftrightarrow> (sum_int64 (lep_charge ! i) = 0
                 \<and> (sum_int64 (lep_type ! i) = 44 \<or> sum_int64 (lep_type ! i) = 48
                    \<or> sum_int64 (lep_type ! i) = 52)))
    \<and> (\<forall>i < length lep_charge.
          \<bar>sum_list (lep_charge ! i)\<bar> < 2 ^ 63 \<and> \<bar>sum_list (lep_type ! i)\<bar> < 2 ^ 63 \<longrightarrow>
          (lepton_filter lep_charge lep_type ! i
            \<longleftrightarrow> (sum_list (lep_charge ! i) = 0
                 \<and> (sum_list (lep_type ! i) = 44 \<or> sum_list (lep_type ! i) = 48
                    \<or> sum_list (lep_type ! i) = 52))))
    \<and> (\<forall>i < length lep_charge.
          \<bar>sum_list (lep_charge ! i)\<bar> < 2 ^ 63 \<and> \<bar>sum_list (lep_type ! i)\<bar> < 2 ^ 63
          \<and> set (lep_type ! i) \<subseteq> {11, 13} \<longrightarrow>
          (lepton_filter lep_charge lep_type ! i
            \<longleftrightarrow> (sum_list (lep_charge ! i) = 0
                 \<and> ((count_list (lep_type ! i) 11 = 4 \<and> count_list (lep_type ! i) 13 = 0)
                    \<or> (count_list (lep_type ! i) 11 = 2 \<and> count_list (lep_type ! i) 13 = 2)
                    \<or> (count_list (lep_type ! i) 11 = 0 \<and> count_list (lep_type ! i) 13 = 4)))))"
proof -
  have len: "length (lepton_filter lep_charge lep_type) = length lep_charge"
    using assms by (simp add: lepton_filter_same_length)
  have nth: "lepton_filter lep_charge lep_type ! i
            \<longleftrightarrow> (sum_int64 (lep_charge ! i) = 0
                 \<and> (sum_int64 (lep_type ! i) = 44 \<or> sum_int64 (lep_type ! i) = 48
                    \<or> sum_int64 (lep_type ! i) = 52))" if "i < length lep_charge" for i
    using assms that by (simp add: lepton_filter_same_length)
  have fit: "lepton_filter lep_charge lep_type ! i
            \<longleftrightarrow> (sum_list (lep_charge ! i) = 0
                 \<and> (sum_list (lep_type ! i) = 44 \<or> sum_list (lep_type ! i) = 48
                    \<or> sum_list (lep_type ! i) = 52))"
    if "i < length lep_charge" and "\<bar>sum_list (lep_charge ! i)\<bar> < 2 ^ 63"
      and "\<bar>sum_list (lep_type ! i)\<bar> < 2 ^ 63" for i
    unfolding nth [OF that(1)] sum_int64_eq_iff(1) [OF that(2)]
      sum_int64_eq_iff(2-4) [OF that(3)] ..
  have flav: "(sum_list (lep_type ! i) = 44 \<or> sum_list (lep_type ! i) = 48
                    \<or> sum_list (lep_type ! i) = 52)
     \<longleftrightarrow> ((count_list (lep_type ! i) 11 = 4 \<and> count_list (lep_type ! i) 13 = 0)
                    \<or> (count_list (lep_type ! i) 11 = 2 \<and> count_list (lep_type ! i) 13 = 2)
                    \<or> (count_list (lep_type ! i) 11 = 0 \<and> count_list (lep_type ! i) 13 = 4))"
    if "set (lep_type ! i) \<subseteq> {11, 13}" for i
    using flavour_arith [of "count_list (lep_type ! i) 11" "count_list (lep_type ! i) 13"]
      sum_type_count [OF that] by simp
  show ?thesis using len nth fit flav by simp
qed

theorem lepton_filter_keeps_witness:
  "length [[1, -1, 1, -1], [1, 1, 1, -1], [1, -1 :: int]]
     = length [[11, 11, 13, 13], [11, 11, 11, 11], [22, 22 :: int]]
   \<and> \<bar>sum_list [1, -1, 1, -1 :: int]\<bar> < 2 ^ 63 \<and> \<bar>sum_list [11, 11, 13, 13 :: int]\<bar> < 2 ^ 63
   \<and> set [11, 11, 13, 13 :: int] \<subseteq> {11, 13}
   \<and> lepton_filter [[1, -1, 1, -1], [1, 1, 1, -1], [1, -1]]
         [[11, 11, 13, 13], [11, 11, 11, 11], [22, 22]] ! 0
   \<and> lepton_filter [[1, -1, 1, -1], [1, 1, 1, -1], [1, -1]]
         [[11, 11, 13, 13], [11, 11, 11, 11], [22, 22]]
       = [True, False, True]
   \<and> sum_list [1, -1, 1, -1 :: int] = 0 \<and> sum_list [11, 11, 13, 13 :: int] = 48
   \<and> count_list [11, 11, 13, 13 :: int] 11 = 2 \<and> count_list [11, 11, 13, 13 :: int] 13 = 2"
  using lepton_filter_keeps [of "[[1, -1, 1, -1], [1, 1, 1, -1], [1, -1]]"
      "[[11, 11, 13, 13], [11, 11, 11, 11], [22, 22]]"]
  by (simp add: lepton_filter_def ak_sum_axis1_def sum_int64_def ak_any_axis0_def
        ak_all_axis0_def)

text \<open>
  Beyond 64 bits the sums wrap: these three type identifiers add up to \<open>2^64 + 44\<close>,
  and the event is kept.
\<close>

lemma lepton_filter_wraps:
  "lepton_filter [[0]] [[9223372036854775807, 9223372036854775807, 46]] = [True]"
  by (simp add: lepton_filter_def ak_sum_axis1_def sum_int64_def ak_any_axis0_def
        ak_all_axis0_def)

subsection \<open>The event weight\<close>

text \<open>
  Claim C3. For a sample present in the cross-section table, whose entry has the fields
  \<^verbatim>\<open>xsec\<close>, \<^verbatim>\<open>sumw\<close> and \<^verbatim>\<open>red_eff\<close> with \<open>sumw * red_eff\<close> not zero,
  \<open>get_xsec_weight\<close> returns \<open>(lumi * xsec) / (sumw * red_eff)\<close> with \<open>lumi = 10000\<close>.
\<close>

theorem get_xsec_weight_value:
  assumes "infos sample = Some xsec_map"
    and "xsec_map ''xsec'' = Some xsec"
    and "xsec_map ''sumw'' = Some sumw"
    and "xsec_map ''red_eff'' = Some red_eff"
    and "sumw * red_eff \<noteq> 0"
  shows "get_xsec_weight infos sample = Inr ((10000 * xsec) / (sumw * red_eff))"
  using assms by (simp add: get_xsec_weight_def)

theorem get_xsec_weight_value_witness:
  "get_xsec_weight ex_infos ''ggH125_ZZ4lep'' = Inr (3 / 2)"
  using get_xsec_weight_value [of ex_infos "''ggH125_ZZ4lep''" "ex_entry 3 20000 1" 3 20000 1]
  by (simp add: ex_infos_def ex_entry_def)

subsection \<open>The processor on a Monte Carlo batch\<close>

text \<open>
  Claim C1. For a batch whose dataset category is not \<^verbatim>\<open>"Data"\<close>, whenever \<open>process\<close>
  returns, the Monte Carlo histogram has received exactly five fills, in this order and
  all for the batch's category. With \<open>m\<close> the invariant masses computed from the
  four-vector sums of the events that passed the cut (one mass per such event) and
  \<open>xw\<close> the cross-section weight of the sample named in the file name, they are: the
  fill nominal, with the masses \<open>m\<close> and the weights \<open>xw * mcWeight * scaleFactor\<close>; the
  fills scaleFactorUP and scaleFactorDOWN, with the masses \<open>m\<close> and the weights taken
  with \<open>scaleFactorUP\<close> and \<open>scaleFactorDOWN\<close>; the fills m4lUP and m4lDOWN, with the
  masses \<open>m * 1.01\<close> and \<open>m * 0.99\<close> and the nominal weights. \<open>process\<close> returns exactly
  when the mass computation, the lookup of the file name, the extraction of the sample
  name and the weight lookup all succeed.
\<close>

theorem process_MC_five_variants:
  assumes "metadata ev ''dataset_category'' = Some c" and "c \<noteq> ''Data''"
  shows "(\<forall>r. process L infos ev = Inr r \<longrightarrow>
            (\<exists>m filename sample xw.
                calc_mllll L (map lep (filter passes_cut (array ev))) = Inr m
                \<and> length m = length (filter passes_cut (array ev))
                \<and> metadata ev ''filename'' = Some filename
                \<and> findall_first filename = Some sample
                \<and> get_xsec_weight infos sample = Inr xw
                \<and> axes (MC r) = axes new_hist_MC
                \<and> fills (MC r) =
                    [\<lparr> fill_mllll = m, fill_dataset = Some c,
                       fill_variation = Some ''nominal'',
                       fill_weight = Some (map (\<lambda>e. xw * mcWeight e * scaleFactor e)
                                             (filter passes_cut (array ev))) \<rparr>,
                     \<lparr> fill_mllll = m, fill_dataset = Some c,
                       fill_variation = Some ''scaleFactorUP'',
                       fill_weight = Some (map (\<lambda>e. xw * mcWeight e * scaleFactorUP e)
                                             (filter passes_cut (array ev))) \<rparr>,
                     \<lparr> fill_mllll = m, fill_dataset = Some c,
                       fill_variation = Some ''scaleFactorDOWN'',
                       fill_weight = Some (map (\<lambda>e. xw * mcWeight e * scaleFactorDOWN e)
                                             (filter passes_cut (array ev))) \<rparr>,
                     \<lparr> fill_mllll = map (\<lambda>x. x * 1.01) m, fill_dataset = Some c,
                       fill_variation = Some ''m4lUP'',
                       fill_weight = Some (map (\<lambda>e. xw * mcWeight e * scaleFactor e)
                                             (filter passes_cut (array ev))) \<rparr>,
                     \<lparr> fill_mllll = map (\<lambda>x. x * 0.99) m, fill_dataset = Some c,
                       fill_variation = Some ''m4lDOWN'',
                       fill_weight = Some (map (\<lambda>e. xw * mcWeight e * scaleFactor e)
                                             (filter passes_cut (array ev))) \<rparr>]))
    \<and> ((\<exists>r. process L infos ev = Inr r) \<longleftrightarrow>
          (\<exists>m filename sample xw.
              calc_mllll L (map lep (filter passes_cut (array ev))) = Inr m
              \<and> metadata ev ''filename'' = Some filename
              \<and> findall_first filename = Some sample
              \<and> get_xsec_weight infos sample = Inr xw))"
proof -
  have len: "length m = length (filter passes_cut (array ev))"
    if "calc_mllll L (map lep (filter passes_cut (array ev))) = Inr m" for m
    using calc_mllll_length [OF that] by simp
  show ?thesis
    unfolding process_MC [OF assms]
    by (auto split: sum.splits option.splits dest: len)
qed

theorem process_MC_five_variants_witness:
  "\<exists>r. process ex_veclib ex_infos (ex_events signal ex_filename) = Inr r
     \<and> fills (MC r) =
         [\<lparr> fill_mllll = [125], fill_dataset = Some signal,
            fill_variation = Some ''nominal'', fill_weight = Some [3] \<rparr>,
          \<lparr> fill_mllll = [125], fill_dataset = Some signal,
            fill_variation = Some ''scaleFactorUP'', fill_weight = Some [3.3] \<rparr>,
          \<lparr> fill_mllll = [125], fill_dataset = Some signal,
            fill_variation = Some ''scaleFactorDOWN'', fill_weight = Some [2.7] \<rparr>,
          \<lparr> fill_mllll = [126.25], fill_dataset = Some signal,
            fill_variation = Some ''m4lUP'', fill_weight = Some [3] \<rparr>,
          \<lparr> fill_mllll = [123.75], fill_dataset = Some signal,
            fill_variation = Some ''m4lDOWN'', fill_weight = Some [3] \<rparr>]"
proof -
  note t = process_MC_five_variants [OF ex_events_category [of signal ex_filename]
      signal_not_Data, of ex_veclib ex_infos]
  have "\<exists>r. process ex_veclib ex_infos (ex_events signal ex_filename) = Inr r"
    using t ex_events_mllll ex_events_filename ex_filename_sample ex_infos_weight by blast
  then obtain r where r: "process ex_veclib ex_infos (ex_events signal ex_filename) = Inr r" ..
  with t obtain m filename sample xw where
    f: "calc_mllll ex_veclib
          (map lep (filter passes_cut (array (ex_events signal ex_filename)))) = Inr m"
      "metadata (ex_events signal ex_filename) ''filename'' = Some filename"
      "findall_first filename = Some sample"
      "get_xsec_weight ex_infos sample = Inr xw"
    and fl: "fills (MC r) =
        [\<lparr> fill_mllll = m, fill_dataset = Some signal,
           fill_variation = Some ''nominal'',
           fill_weight = Some (map (\<lambda>e. xw * mcWeight e * scaleFactor e)
                                 (filter passes_cut (array (ex_events signal ex_filename)))) \<rparr>,
         \<lparr> fill_mllll = m, fill_dataset = Some signal,
           fill_variation = Some ''scaleFactorUP'',
           fill_weight = Some (map (\<lambda>e. xw * mcWeight e * scaleFactorUP e)
                                 (filter passes_cut (array (ex_events signal ex_filename)))) \<rparr>,
         \<lparr> fill_mllll = m, fill_dataset = Some signal,
           fill_variation = Some ''scaleFactorDOWN'',
           fill_weight = Some (map (\<lambda>e. xw * mcWeight e * scaleFactorDOWN e)
                                 (filter passes_cut (array (ex_events signal ex_filename)))) \<rparr>,
         \<lparr> fill_mllll = map (\<lambda>x. x * 1.01) m, fill_dataset = Some signal,
           fill_variation = Some ''m4lUP'',
           fill_weight = Some (map (\<lambda>e. xw * mcWeight e * scaleFactor e)
                                 (filter passes_cut (array (ex_events signal ex_filename)))) \<rparr>,
         \<lparr> fill_mllll = map (\<lambda>x. x * 0.99) m, fill_dataset = Some signal,
           fill_variation = Some ''m4lDOWN'',
           fill_weight = Some (map (\<lambda>e. xw * mcWeight e * scaleFactor e)
                                 (filter passes_cut (array (ex_events signal ex_filename)))) \<rparr>]"
    by blast
  from f(1) have m: "m = [125]" by (simp add: ex_events_mllll)
  from f(2) have "filename = ex_filename" by (simp add: ex_events_filename)
  with f(3) have "sample = ''ggH125_ZZ4lep''" by (simp add: ex_filename_sample)
  with f(4) have "xw = 3 / 2" by (simp add: ex_infos_weight)
  with fl m have "fills (MC r) =
         [\<lparr> fill_mllll = [125], fill_dataset = Some signal,
            fill_variation = Some ''nominal'', fill_weight = Some [3] \<rparr>,
          \<lparr> fill_mllll = [125], fill_dataset = Some signal,
            fill_variation = Some ''scaleFactorUP'', fill_weight = Some [3.3] \<rparr>,
          \<lparr> fill_mllll = [125], fill_dataset = Some signal,
            fill_variation = Some ''scaleFactorDOWN'', fill_weight = Some [2.7] \<rparr>,
          \<lparr> fill_mllll = [126.25], fill_dataset = Some signal,
            fill_variation = Some ''m4lUP'', fill_weight = Some [3] \<rparr>,
          \<lparr> fill_mllll = [123.75], fill_dataset = Some signal,
            fill_variation = Some ''m4lDOWN'', fill_weight = Some [3] \<rparr>]"
    by (simp add: ex_events_passing ex_event_pass_def)
  with r show ?thesis by (intro exI [of _ r]) simp
qed

text \<open>
  Claim C8. On a Monte Carlo batch, with \<open>m\<close> the invariant masses (in GeV) of the
  events that passed the cut and \<open>xw\<close> the cross-section weight of the sample: the
  nominal fill has the masses \<open>m\<close> and the weights \<open>xw * mcWeight * scaleFactor\<close>; the
  fills scaleFactorUP and scaleFactorDOWN have the same masses \<open>m\<close> and the weights
  taken with \<open>scaleFactorUP\<close> and \<open>scaleFactorDOWN\<close>; the fills m4lUP and m4lDOWN have
  the masses \<open>m * 1.01\<close> and \<open>m * 0.99\<close> and the nominal weights.
\<close>

theorem process_MC_variations:
  assumes "metadata ev ''dataset_category'' = Some c" and "c \<noteq> ''Data''"
    and "calc_mllll L (map lep (filter passes_cut (array ev))) = Inr m"
    and "metadata ev ''filename'' = Some filename"
    and "findall_first filename = Some sample"
    and "get_xsec_weight infos sample = Inr xw"
  shows "\<exists>r. process L infos ev = Inr r
    \<and> map (\<lambda>f. (fill_variation f, fill_mllll f, fill_weight f)) (fills (MC r)) =
        [(Some ''nominal'', m,
            Some (map (\<lambda>e. xw * mcWeight e * scaleFactor e) (filter passes_cut (array ev)))),
         (Some ''scaleFactorUP'', m,
            Some (map (\<lambda>e. xw * mcWeight e * scaleFactorUP e) (filter passes_cut (array ev)))),
         (Some ''scaleFactorDOWN'', m,
            Some (map (\<lambda>e. xw * mcWeight e * scaleFactorDOWN e) (filter passes_cut (array ev)))),
         (Some ''m4lUP'', map (\<lambda>x. x * 1.01) m,
            Some (map (\<lambda>e. xw * mcWeight e * scaleFactor e) (filter passes_cut (array ev)))),
         (Some ''m4lDOWN'', map (\<lambda>x. x * 0.99) m,
            Some (map (\<lambda>e. xw * mcWeight e * scaleFactor e) (filter passes_cut (array ev))))]"
  unfolding process_MC [OF assms(1,2)]
  using assms(3-6) by simp

theorem process_MC_variations_witness:
  "\<exists>r. process ex_veclib ex_infos (ex_events signal ex_filename) = Inr r
    \<and> map (\<lambda>f. (fill_variation f, fill_mllll f, fill_weight f)) (fills (MC r)) =
        [(Some ''nominal'', [125], Some [3]),
         (Some ''scaleFactorUP'', [125], Some [3.3]),
         (Some ''scaleFactorDOWN'', [125], Some [2.7]),
         (Some ''m4lUP'', [126.25], Some [3]),
         (Some ''m4lDOWN'', [123.75], Some [3])]"
  using process_MC_variations [OF ex_events_category signal_not_Data ex_events_mllll
      ex_events_filename ex_filename_sample ex_infos_weight]
  by (simp add: ex_events_passing ex_event_pass_def)

subsection \<open>Which histogram is filled\<close>

text \<open>
  Claim C10. For a batch of category \<^verbatim>\<open>"Data"\<close>, \<open>process\<close> returns whenever the mass
  computation succeeds; the Monte Carlo histogram it returns has received no fill, and
  the data histogram exactly one, without weights: each event that passed the cut
  contributes its mass with weight 1. For a batch of any other category, \<open>process\<close>
  returns exactly when the mass computation, the lookup of the file name, the
  extraction of the sample name and the weight lookup succeed; the data histogram it
  returns has received no fill, and the Monte Carlo histogram has received, under each
  of the five variation labels and the batch's category, one entry per event that
  passed the cut: its mass (times 1.01 or 0.99 for the two mass variations) with its
  weight.
\<close>

theorem process_fills_one_histogram:
  assumes "metadata ev ''dataset_category'' = Some c"
  shows "(c = ''Data'' \<longrightarrow>
           (\<forall>m. calc_mllll L (map lep (filter passes_cut (array ev))) = Inr m \<longrightarrow>
              (\<exists>r. process L infos ev = Inr r))
           \<and> (\<forall>r. process L infos ev = Inr r \<longrightarrow>
                fills (MC r) = []
                \<and> (\<exists>m. calc_mllll L (map lep (filter passes_cut (array ev))) = Inr m
                      \<and> length m = length (filter passes_cut (array ev))
                      \<and> fills (data r) = [\<lparr> fill_mllll = m, fill_dataset = None,
                                            fill_variation = None, fill_weight = None \<rparr>]
                      \<and> concat (map fill_entries (fills (data r))) = map (\<lambda>x. (x, 1)) m)))
    \<and> (c \<noteq> ''Data'' \<longrightarrow>
           ((\<exists>r. process L infos ev = Inr r) \<longleftrightarrow>
              (\<exists>m filename sample xw.
                  calc_mllll L (map lep (filter passes_cut (array ev))) = Inr m
                  \<and> metadata ev ''filename'' = Some filename
                  \<and> findall_first filename = Some sample
                  \<and> get_xsec_weight infos sample = Inr xw))
           \<and> (\<forall>r. process L infos ev = Inr r \<longrightarrow>
                fills (data r) = []
                \<and> (\<exists>m filename sample xw.
                      calc_mllll L (map lep (filter passes_cut (array ev))) = Inr m
                      \<and> length m = length (filter passes_cut (array ev))
                      \<and> metadata ev ''filename'' = Some filename
                      \<and> findall_first filename = Some sample
                      \<and> get_xsec_weight infos sample = Inr xw
                      \<and> map (\<lambda>f. (fill_dataset f, fill_variation f, fill_entries f))
                            (fills (MC r)) =
                          [(Some c, Some ''nominal'',
                              zip m (map (\<lambda>e. xw * mcWeight e * scaleFactor e)
                                       (filter passes_cut (array ev)))),
                           (Some c, Some ''scaleFactorUP'',
                              zip m (map (\<lambda>e. xw * mcWeight e * scaleFactorUP e)
                                       (filter passes_cut (array ev)))),
                           (Some c, Some ''scaleFactorDOWN'',
                              zip m (map (\<lambda>e. xw * mcWeight e * scaleFactorDOWN e)
                                       (filter passes_cut (array ev)))),
                           (Some c, Some ''m4lUP'',
                              zip (map (\<lambda>x. x * 1.01) m)
                                (map (\<lambda>e. xw * mcWeight e * scaleFactor e)
                                   (filter passes_cut (array ev)))),
                           (Some c, Some ''m4lDOWN'',
                              zip (map (\<lambda>x. x * 0.99) m)
                                (map (\<lambda>e. xw * mcWeight e * scaleFactor e)
                                   (filter passes_cut (array ev))))])))"
proof (cases "c = ''Data''")
  case True
  have len: "length m = length (filter passes_cut (array ev))"
    if "calc_mllll L (map lep (filter passes_cut (array ev))) = Inr m" for m
    using calc_mllll_length [OF that] by simp
  have d: "metadata ev ''dataset_category'' = Some ''Data''"
    using assms True by simp
  show ?thesis
    using True unfolding process_Data [OF d]
    by (auto simp: new_hist_MC_def fill_entries_def split: sum.splits dest: len)
next
  case False
  have len: "length m = length (filter passes_cut (array ev))"
    if "calc_mllll L (map lep (filter passes_cut (array ev))) = Inr m" for m
    using calc_mllll_length [OF that] by simp
  show ?thesis
    using False unfolding process_MC [OF assms False]
    by (auto simp: new_hist_data_def fill_entries_def split: sum.splits option.splits
          dest: len)
qed

theorem process_fills_one_histogram_witness:
  "(\<exists>r. process ex_veclib ex_infos (ex_events ''Data'' ex_filename) = Inr r
        \<and> fills (MC r) = []
        \<and> concat (map fill_entries (fills (data r))) = [(125, 1)])
   \<and> (\<exists>r. process ex_veclib ex_infos (ex_events signal ex_filename) = Inr r
        \<and> fills (data r) = []
        \<and> map (\<lambda>f. (fill_dataset f, fill_variation f, fill_entries f)) (fills (MC r)) =
            [(Some signal, Some ''nominal'', [(125, 3)]),
             (Some signal, Some ''scaleFactorUP'', [(125, 3.3)]),
             (Some signal, Some ''scaleFactorDOWN'', [(125, 2.7)]),
             (Some signal, Some ''m4lUP'', [(126.25, 3)]),
             (Some signal, Some ''m4lDOWN'', [(123.75, 3)])])"
proof -
  note d = process_fills_one_histogram [OF ex_events_category [of "''Data''" ex_filename],
      of ex_veclib ex_infos]
  note s = process_fills_one_histogram [OF ex_events_category [of signal ex_filename],
      of ex_veclib ex_infos]
  note dd = d [THEN conjunct1, THEN mp, OF refl]
  note ss = s [THEN conjunct2, THEN mp, OF signal_not_Data]
  obtain r1 where r1: "process ex_veclib ex_infos (ex_events ''Data'' ex_filename) = Inr r1"
    using dd [THEN conjunct1, THEN spec, THEN mp, OF ex_events_mllll] ..
  have a: "fills (MC r1) = [] \<and> concat (map fill_entries (fills (data r1))) = [(125, 1)]"
    using dd [THEN conjunct2, THEN spec, THEN mp, OF r1]
      ex_events_mllll [of "''Data''" ex_filename] by auto
  have "\<exists>m filename sample xw.
      calc_mllll ex_veclib
        (map lep (filter passes_cut (array (ex_events signal ex_filename)))) = Inr m
      \<and> metadata (ex_events signal ex_filename) ''filename'' = Some filename
      \<and> findall_first filename = Some sample
      \<and> get_xsec_weight ex_infos sample = Inr xw"
    using ex_events_mllll ex_events_filename ex_filename_sample ex_infos_weight by blast
  then have "\<exists>r. process ex_veclib ex_infos (ex_events signal ex_filename) = Inr r"
    by (rule ss [THEN conjunct1, THEN iffD2])
  then obtain r2 where r2: "process ex_veclib ex_infos (ex_events signal ex_filename) = Inr r2" ..
  note rr = ss [THEN conjunct2, THEN spec, THEN mp, OF r2]
  from rr have e: "fills (data r2) = []" by (rule conjunct1)
  from rr [THEN conjunct2] obtain m filename sample xw where
    f: "calc_mllll ex_veclib
          (map lep (filter passes_cut (array (ex_events signal ex_filename)))) = Inr m"
      "metadata (ex_events signal ex_filename) ''filename'' = Some filename"
      "findall_first filename = Some sample"
      "get_xsec_weight ex_infos sample = Inr xw"
    and fl: "map (\<lambda>f. (fill_dataset f, fill_variation f, fill_entries f)) (fills (MC r2)) =
        [(Some signal, Some ''nominal'',
            zip m (map (\<lambda>e. xw * mcWeight e * scaleFactor e)
                     (filter passes_cut (array (ex_events signal ex_filename))))),
         (Some signal, Some ''scaleFactorUP'',
            zip m (map (\<lambda>e. xw * mcWeight e * scaleFactorUP e)
                     (filter passes_cut (array (ex_events signal ex_filename))))),
         (Some signal, Some ''scaleFactorDOWN'',
            zip m (map (\<lambda>e. xw * mcWeight e * scaleFactorDOWN e)
                     (filter passes_cut (array (ex_events signal ex_filename))))),
         (Some signal, Some ''m4lUP'',
            zip (map (\<lambda>x. x * 1.01) m)
              (map (\<lambda>e. xw * mcWeight e * scaleFactor e)
                 (filter passes_cut (array (ex_events signal ex_filename))))),
         (Some signal, Some ''m4lDOWN'',
            zip (map (\<lambda>x. x * 0.99) m)
              (map (\<lambda>e. xw * mcWeight e * scaleFactor e)
                 (filter passes_cut (array (ex_events signal ex_filename)))))]"
    by (elim exE conjE)
  from f(1) have m: "m = [125]" by (simp add: ex_events_mllll)
  from f(2) have "filename = ex_filename" by (simp add: ex_events_filename)
  with f(3) have "sample = ''ggH125_ZZ4lep''" by (simp add: ex_filename_sample)
  with f(4) have "xw = 3 / 2" by (simp add: ex_infos_weight)
  with fl m have b: "map (\<lambda>f. (fill_dataset f, fill_variation f, fill_entries f))
        (fills (MC r2)) =
            [(Some signal, Some ''nominal'', [(125, 3)]),
             (Some signal, Some ''scaleFactorUP'', [(125, 3.3)]),
             (Some signal, Some ''scaleFactorDOWN'', [(125, 2.7)]),
             (Some signal, Some ''m4lUP'', [(126.25, 3)]),
             (Some signal, Some ''m4lDOWN'', [(123.75, 3)])]"
    by (simp add: ex_events_passing ex_event_pass_def)
  show ?thesis
    using r1 a r2 e b by (intro conjI exI [of _ r1] exI [of _ r2]) simp_all
qed

text \<open>
  Claim C5, as stated: \<open>process\<close> does not branch on the dataset category. It does: on
  the same events, the category \<^verbatim>\<open>"Data"\<close> gives one unweighted fill of the data
  histogram and none of the Monte Carlo histogram, and a signal category gives no fill
  of the data histogram and five weighted fills of the Monte Carlo histogram.
\<close>

theorem process_branches_on_category:
  "map_sum id fill_pattern (process ex_veclib ex_infos (ex_events ''Data'' ex_filename))
     = Inr ([(None, False)], [])
   \<and> map_sum id fill_pattern (process ex_veclib ex_infos (ex_events signal ex_filename))
     = Inr ([], [(Some ''nominal'', True), (Some ''scaleFactorUP'', True),
                 (Some ''scaleFactorDOWN'', True), (Some ''m4lUP'', True),
                 (Some ''m4lDOWN'', True)])
   \<and> map_sum id fill_pattern (process ex_veclib ex_infos (ex_events ''Data'' ex_filename))
     \<noteq> map_sum id fill_pattern (process ex_veclib ex_infos (ex_events signal ex_filename))"
proof -
  have d: "metadata (ex_events ''Data'' ex_filename) ''dataset_category'' = Some ''Data''"
    by (rule ex_events_category)
  show ?thesis
    unfolding process_Data [OF d] process_MC [OF ex_events_category signal_not_Data]
    by (simp add: ex_events_mllll ex_events_filename ex_filename_sample ex_infos_weight
          fill_pattern_def new_hist_MC_def new_hist_data_def)
qed

text \<open>
  Claim C5, amended. \<open>process\<close> branches once, on whether the dataset category is
  \<^verbatim>\<open>"Data"\<close>; everything else is the same arithmetic on whole arrays for every batch,
  and an error of a lookup or of the indexing ends it. For every batch, vector library
  and cross-section table, \<open>process\<close> is given by the expression below: its only
  conditional on the input is the test of the category; the cut is a filter of the
  array, not a branch; on the Monte Carlo side the five fills follow one pattern, the
  masses times a factor (1 where the code fills the masses as they are) and the weights
  with one of the three scale factors, and the category only labels the fills.
\<close>

theorem process_single_branch:
  "process L infos ev =
    (case metadata ev ''dataset_category'' of
       None \<Rightarrow> Inl (KeyError ''dataset_category'')
     | Some c \<Rightarrow>
    (case calc_mllll L (map lep (filter passes_cut (array ev))) of
       Inl e \<Rightarrow> Inl e
     | Inr m \<Rightarrow>
        if c = ''Data'' then
          Inr \<lparr> data = \<lparr> axes = axes new_hist_data,
                         fills = [\<lparr> fill_mllll = m, fill_dataset = None,
                                    fill_variation = None, fill_weight = None \<rparr>] \<rparr>,
                MC = new_hist_MC \<rparr>
        else
    (case metadata ev ''filename'' of
       None \<Rightarrow> Inl (KeyError ''filename'')
     | Some filename \<Rightarrow>
    (case findall_first filename of
       None \<Rightarrow> Inl IndexError
     | Some sample \<Rightarrow>
    (case get_xsec_weight infos sample of
       Inl e \<Rightarrow> Inl e
     | Inr xw \<Rightarrow>
        Inr \<lparr> data = new_hist_data,
              MC = \<lparr> axes = axes new_hist_MC,
                     fills =
                       map (\<lambda>(variation, mass_factor, sf).
                              \<lparr> fill_mllll = map (\<lambda>x. x * mass_factor) m,
                                fill_dataset = Some c,
                                fill_variation = Some variation,
                                fill_weight = Some (map (\<lambda>e. xw * mcWeight e * sf e)
                                                      (filter passes_cut (array ev))) \<rparr>)
                         [(''nominal'', 1, scaleFactor),
                          (''scaleFactorUP'', 1, scaleFactorUP),
                          (''scaleFactorDOWN'', 1, scaleFactorDOWN),
                          (''m4lUP'', 1.01, scaleFactor),
                          (''m4lDOWN'', 0.99, scaleFactor)] \<rparr> \<rparr>)))))"
proof (cases "metadata ev ''dataset_category''")
  case None
  then show ?thesis by (simp add: process_def)
next
  case (Some c)
  show ?thesis
  proof (cases "c = ''Data''")
    case True
    with Some have d: "metadata ev ''dataset_category'' = Some ''Data''" by simp
    show ?thesis
      unfolding process_Data [OF d] using d by (simp split: sum.splits)
  next
    case False
    show ?thesis
      unfolding process_MC [OF Some False] using Some False
      by (simp split: sum.splits option.splits)
  qed
qed

theorem process_single_branch_witness:
  "process ex_veclib ex_infos (ex_events ''Data'' ex_filename_data)
     = Inr \<lparr> data = \<lparr> axes = axes new_hist_data,
                      fills = [\<lparr> fill_mllll = [125], fill_dataset = None,
                                 fill_variation = None, fill_weight = None \<rparr>] \<rparr>,
             MC = new_hist_MC \<rparr>
   \<and> process ex_veclib ex_infos (ex_events zzstar ex_filename_llll)
     = Inr \<lparr> data = new_hist_data,
             MC = \<lparr> axes = axes new_hist_MC,
                    fills =
                     [\<lparr> fill_mllll = [125], fill_dataset = Some zzstar,
                        fill_variation = Some ''nominal'', fill_weight = Some [8 / 3] \<rparr>,
                      \<lparr> fill_mllll = [125], fill_dataset = Some zzstar,
                        fill_variation = Some ''scaleFactorUP'',
                        fill_weight = Some [44 / 15] \<rparr>,
                      \<lparr> fill_mllll = [125], fill_dataset = Some zzstar,
                        fill_variation = Some ''scaleFactorDOWN'',
                        fill_weight = Some [12 / 5] \<rparr>,
                      \<lparr> fill_mllll = [126.25], fill_dataset = Some zzstar,
                        fill_variation = Some ''m4lUP'', fill_weight = Some [8 / 3] \<rparr>,
                      \<lparr> fill_mllll = [123.75], fill_dataset = Some zzstar,
                        fill_variation = Some ''m4lDOWN'', fill_weight = Some [8 / 3] \<rparr>] \<rparr> \<rparr>"
  unfolding process_single_branch [of ex_veclib ex_infos "ex_events ''Data'' ex_filename_data"]
    process_single_branch [of ex_veclib ex_infos "ex_events zzstar ex_filename_llll"]
    ex_events_mllll
  by (simp add: ex_events_category ex_events_filename ex_llll_sample ex_llll_weight
        zzstar_not_Data ex_events_passing ex_event_pass_def)

subsection \<open>Indexing the first four leptons\<close>

text \<open>
  Claim C9. Let every event of the input tree have \<open>lep_n\<close> entries in each lepton
  branch. Then the events the query delivers are zipped by the schema without error,
  each has exactly four leptons, the invariant-mass computation on the events that
  pass the cut returns, and \<open>process\<close> never fails with an index out of range on
  \<^verbatim>\<open>leptons[:, k]\<close>.
\<close>

theorem lepton_indexing_in_bounds:
  assumes "list_all lep_n_counts_leptons source"
  shows "\<exists>evs. schema_events md (get_lepton_query source) = Inr evs
     \<and> list_all (\<lambda>e. length (lep e) = 4) (array evs)
     \<and> (\<exists>m. calc_mllll L (map lep (filter passes_cut (array evs))) = Inr m)
     \<and> (\<forall>infos k. process L infos evs \<noteq> Inl (LeptonIndexError k))"
proof -
  define g where "g = (\<lambda>c. \<lparr> lep = projr (zip_leptons c), mcWeight = col_mcWeight c,
      scaleFactor = col_scaleFactor c, scaleFactorUP = col_scaleFactorUP c,
      scaleFactorDOWN = col_scaleFactorDOWN c \<rparr>)"
  have row: "schema_event c = Inr (g c) \<and> length (lep (g c)) = 4"
    if "c \<in> set (get_lepton_query source)" for c
  proof -
    from that obtain e where e: "e \<in> set source" "e_lep_n e = 4" "c = select_columns e"
      by (auto simp: get_lepton_query_def)
    with assms have "lep_n_counts_leptons e" by (simp add: list_all_iff)
    from zip_leptons_length [OF this] e obtain ls
      where "zip_leptons c = Inr ls" "length ls = 4" by auto
    then show ?thesis by (simp add: schema_event_def g_def)
  qed
  define evs where "evs = \<lparr> metadata = md, array = map g (get_lepton_query source) \<rparr>"
  have s: "schema_events md (get_lepton_query source) = Inr evs"
    using sequence_err_map_Inr [of "get_lepton_query source" schema_event g] row
    by (simp add: schema_events_def evs_def)
  have four: "list_all (\<lambda>e. length (lep e) = 4) (array evs)"
    using row by (simp add: evs_def list_all_iff)
  then have ge: "list_all (\<lambda>e. 4 \<le> length (lep e)) (array evs)"
    by (simp add: list_all_iff)
  then have "list_all (\<lambda>ls. 4 \<le> length ls) (map lep (filter passes_cut (array evs)))"
    by (simp add: list_all_iff)
  from calc_mllll_ok [OF this]
  have m: "\<exists>m. calc_mllll L (map lep (filter passes_cut (array evs))) = Inr m" by blast
  show ?thesis
    using s four m process_no_lepton_index_error [OF ge] by blast
qed

theorem lepton_indexing_in_bounds_witness:
  "list_all lep_n_counts_leptons [ex_tree_event 4, ex_tree_event 3, ex_tree_event 5]
   \<and> (\<exists>evs. schema_events Map.empty
               (get_lepton_query [ex_tree_event 4, ex_tree_event 3, ex_tree_event 5]) = Inr evs
         \<and> list_all (\<lambda>e. length (lep e) = 4) (array evs)
         \<and> (\<exists>m. calc_mllll ex_veclib (map lep (filter passes_cut (array evs))) = Inr m)
         \<and> (\<forall>infos k. process ex_veclib infos evs \<noteq> Inl (LeptonIndexError k)))"
proof -
  have h: "list_all lep_n_counts_leptons [ex_tree_event 4, ex_tree_event 3, ex_tree_event 5]"
    by (simp add: lep_n_counts_leptons_def ex_tree_event_def)
  show ?thesis
    using h lepton_indexing_in_bounds [OF h, of Map.empty ex_veclib] by simp
qed

subsection \<open>Failure handling\<close>

text \<open>
  Claim C6, as stated: no function of the notebook catches an exception or replaces it
  by one of its own. \<open>run_updates_stream\<close> does both: when the stream raises, the caller
  sees a new exception that names the dataset category, not the one that was raised.
\<close>

theorem run_updates_stream_replaces_exception:
  "run_updates_stream ([], Some (LibError ''request failed'')) ''Data''
     = Inl (Failure ''Data'' (LibError ''request failed''))
   \<and> run_updates_stream ([], Some (LibError ''request failed'')) ''Data''
     \<noteq> Inl (LibError ''request failed'')"
  by (simp add: run_updates_stream_def)

text \<open>
  Claim C6, amended. The selection, weighting and histogram-filling functions handle no
  failure: each fails exactly when one of its lookups, index operations or divisions
  fails, with the error of the first that fails, unchanged. This is stated for
  \<open>get_xsec_weight\<close> (a missing sample or field, a zero denominator), for the lepton
  indexing (the first column index that some event lacks) and for \<open>process\<close> (a missing
  metadata key, the indexing, a file name without a match, the weight lookup);
  \<open>lepton_filter\<close> and the query have no failing operation. \<open>produce_all_histograms\<close>
  fails exactly with the error of its first failing step (a datasource without a
  category, a failed job, a job without a result, histograms that cannot be added), and
  a failed gather reports the error of one of its jobs. The one handler of the notebook
  is in \<open>run_updates_stream\<close>: an exception \<open>e\<close> raised by the stream is replaced by
  \<^verbatim>\<open>Exception("Failure while processing <name>")\<close> with cause \<open>e\<close>; a stream that ends
  normally gives its last item, or \<^verbatim>\<open>None\<close> when it had none.
\<close>

theorem only_run_updates_stream_handles:
  "(get_xsec_weight infos s = Inl e1 \<longleftrightarrow>
      (infos s = None \<and> e1 = KeyError s)
      \<or> (\<exists>m. infos s = Some m
           \<and> ((m ''xsec'' = None \<and> e1 = KeyError ''xsec'')
              \<or> (\<exists>x. m ''xsec'' = Some x
                   \<and> ((m ''sumw'' = None \<and> e1 = KeyError ''sumw'')
                      \<or> (\<exists>w. m ''sumw'' = Some w
                           \<and> ((m ''red_eff'' = None \<and> e1 = KeyError ''red_eff'')
                              \<or> (\<exists>r. m ''red_eff'' = Some r \<and> w * r = 0
                                   \<and> e1 = ZeroDivisionError))))))))
   \<and> (calc_mllll L leptons = Inl e2 \<longleftrightarrow>
        (\<exists>k<4. e2 = LeptonIndexError k
           \<and> \<not> list_all (\<lambda>ls. k < length ls) leptons
           \<and> (\<forall>j<k. list_all (\<lambda>ls. j < length ls) leptons)))
   \<and> (process L infos ev = Inl e3 \<longleftrightarrow>
        (metadata ev ''dataset_category'' = None \<and> e3 = KeyError ''dataset_category'')
        \<or> (\<exists>c. metadata ev ''dataset_category'' = Some c
             \<and> (calc_mllll L (map lep (filter passes_cut (array ev))) = Inl e3
                \<or> (\<exists>m. calc_mllll L (map lep (filter passes_cut (array ev))) = Inr m
                     \<and> c \<noteq> ''Data''
                     \<and> ((metadata ev ''filename'' = None \<and> e3 = KeyError ''filename'')
                        \<or> (\<exists>f. metadata ev ''filename'' = Some f
                             \<and> ((findall_first f = None \<and> e3 = IndexError)
                                \<or> (\<exists>s. findall_first f = Some s
                                     \<and> get_xsec_weight infos s = Inl e3))))))))
   \<and> run_updates_stream stream name =
        (case snd stream of
           Some e0 \<Rightarrow> Inl (Failure name e0)
         | None \<Rightarrow> Inr (if fst stream = [] then None else Some (last (fst stream))))
   \<and> (gather sched outcomes = Inl e4 \<longrightarrow> Inl e4 \<in> set outcomes)
   \<and> (Inl e4 \<in> set outcomes \<longrightarrow> (\<exists>e'. gather sched outcomes = Inl e'))
   \<and> (produce_all_histograms L infos make_datasource execute sched = Inl e5 \<longleftrightarrow>
        make_jobs (map (\<lambda>k. make_datasource fileset k get_lepton_query) fileset_keys)
            (execute (process L infos)) = Inl e5
        \<or> (\<exists>jobs. make_jobs
                      (map (\<lambda>k. make_datasource fileset k get_lepton_query) fileset_keys)
                      (execute (process L infos)) = Inr jobs
             \<and> (gather sched (map (\<lambda>(stream, name). run_updates_stream stream name) jobs)
                   = Inl e5
                \<or> (\<exists>hs. gather sched
                            (map (\<lambda>(stream, name). run_updates_stream stream name) jobs)
                            = Inr hs
                     \<and> (getitems data hs = Inl e5
                        \<or> (\<exists>ds. getitems data hs = Inr ds
                             \<and> (py_sum ds = Inl e5
                                \<or> (\<exists>full_data. py_sum ds = Inr full_data
                                     \<and> (getitems MC hs = Inl e5
                                        \<or> (\<exists>ms. getitems MC hs = Inr ms
                                             \<and> py_sum ms = Inl e5))))))))))
   \<and> (make_jobs datasources exec = Inl e6 \<longrightarrow> e6 = KeyError ''dataset_category'')
   \<and> (getitems key hs' = Inl e7 \<longrightarrow> e7 = TypeError)
   \<and> (py_sum hists' = Inl e8 \<longrightarrow> e8 = LibError ''axes of the histograms differ'')"
  using get_xsec_weight_Inl_iff [of infos s e1] calc_mllll_Inl_iff [of L leptons e2]
    process_Inl_iff [of L infos ev e3] run_updates_stream_eq [of stream name]
    gather_Inl_mem [of sched outcomes e4] gather_Inl_ex [of e4 outcomes sched]
    produce_all_histograms_Inl_iff [of L infos make_datasource execute sched e5]
    make_jobs_Inl [of datasources exec e6] getitems_Inl [of key hs' e7]
    py_sum_Inl [of hists' e8]
  by (intro conjI impI) assumption+

theorem only_run_updates_stream_handles_witness:
  "get_xsec_weight Map.empty ''ggH125_ZZ4lep'' = Inl (KeyError ''ggH125_ZZ4lep'')
   \<and> process ex_veclib Map.empty (ex_events signal ex_filename)
       = Inl (KeyError ''ggH125_ZZ4lep'')
   \<and> process ex_veclib ex_infos (ex_events signal ex_filename_data) = Inl IndexError
   \<and> process ex_veclib ex_infos ex_events_three = Inl (LeptonIndexError 3)
   \<and> run_updates_stream ([], Some IndexError) ''Data'' = Inl (Failure ''Data'' IndexError)"
proof -
  have w1: "get_xsec_weight Map.empty ''ggH125_ZZ4lep'' = Inl (KeyError ''ggH125_ZZ4lep'')"
    using only_run_updates_stream_handles
      [where infos = Map.empty and s = "''ggH125_ZZ4lep''"
         and ?e1.0 = "KeyError ''ggH125_ZZ4lep''", THEN conjunct1]
    by simp
  note p = conjunct1 [OF conjunct2 [OF conjunct2]]
  have w2: "process ex_veclib Map.empty (ex_events signal ex_filename)
       = Inl (KeyError ''ggH125_ZZ4lep'')"
    using only_run_updates_stream_handles
      [where L = ex_veclib and infos = Map.empty and ev = "ex_events signal ex_filename"
         and ?e3.0 = "KeyError ''ggH125_ZZ4lep''", THEN p]
      ex_events_category [of signal ex_filename] signal_not_Data
      ex_events_mllll [of signal ex_filename] ex_events_filename [of signal ex_filename]
      ex_filename_sample w1
    by blast
  have w3: "process ex_veclib ex_infos (ex_events signal ex_filename_data) = Inl IndexError"
    using only_run_updates_stream_handles
      [where L = ex_veclib and infos = ex_infos
         and ev = "ex_events signal ex_filename_data" and ?e3.0 = IndexError, THEN p]
      ex_events_category [of signal ex_filename_data] signal_not_Data
      ex_events_mllll [of signal ex_filename_data]
      ex_events_filename [of signal ex_filename_data] ex_data_no_sample
    by blast
  have c: "metadata ex_events_three ''dataset_category'' = Some ''Data''"
    by (simp add: ex_events_three_def)
  have w4: "process ex_veclib ex_infos ex_events_three = Inl (LeptonIndexError 3)"
    using only_run_updates_stream_handles
      [where L = ex_veclib and infos = ex_infos and ev = ex_events_three
         and ?e3.0 = "LeptonIndexError 3", THEN p]
      c ex_events_three_mllll
    by blast
  have w5: "run_updates_stream ([], Some IndexError) ''Data''
      = Inl (Failure ''Data'' IndexError)"
    using only_run_updates_stream_handles
      [where stream = "([], Some IndexError)" and name = "''Data''",
        THEN conjunct2, THEN conjunct2, THEN conjunct2, THEN conjunct1]
    by simp
  show ?thesis using w1 w2 w3 w4 w5 by simp
qed

subsection \<open>Fan-out and fan-in\<close>

text \<open>
  Claim C7. \<open>produce_all_histograms\<close> creates one job for each of the four dataset
  categories of the fileset, in the order of the fileset: the stream that the executor
  returns for the datasource of the category. When every datasource names its category
  and every stream ends without an exception after at least one item whose histograms
  have the axes that \<open>process\<close> gives them, the function returns, whatever the order
  in which the jobs finish, and the \<^verbatim>\<open>"data"\<close> entry of its result is the sum of the data
  histograms of the last items of the streams (it has received the fills of all of them,
  category after category), and the \<^verbatim>\<open>"MC"\<close> entry is the same sum of the Monte Carlo
  histograms.
\<close>

theorem produce_all_histograms_sums:
  fixes make_datasource :: datasource_factory and execute :: executor
  assumes "list_all (\<lambda>k. src_metadata (make_datasource fileset k get_lepton_query)
                            ''dataset_category'' \<noteq> None) fileset_keys"
    and "list_all (\<lambda>k. case execute (process L infos)
                               (make_datasource fileset k get_lepton_query) of
                          (items, exc) \<Rightarrow>
                            exc = None \<and> items \<noteq> []
                            \<and> axes (data (last items)) = axes new_hist_data
                            \<and> axes (MC (last items)) = axes new_hist_MC) fileset_keys"
  shows "produce_all_histograms L infos make_datasource execute sched =
      Inr \<lparr> data = Hist \<lparr> axes = axes new_hist_data,
                          fills = concat (map (\<lambda>k. fills (data (last (fst
                                    (execute (process L infos)
                                       (make_datasource fileset k get_lepton_query))))))
                                    fileset_keys) \<rparr>,
            MC = Hist \<lparr> axes = axes new_hist_MC,
                        fills = concat (map (\<lambda>k. fills (MC (last (fst
                                    (execute (process L infos)
                                       (make_datasource fileset k get_lepton_query))))))
                                    fileset_keys) \<rparr> \<rparr>
    \<and> (\<exists>jobs. make_jobs (map (\<lambda>k. make_datasource fileset k get_lepton_query) fileset_keys)
                  (execute (process L infos)) = Inr jobs
          \<and> map fst jobs = map (\<lambda>k. execute (process L infos)
                                       (make_datasource fileset k get_lepton_query))
                              fileset_keys
          \<and> length jobs = 4)"
proof -
  define src where "src = (\<lambda>k. make_datasource fileset k get_lepton_query)"
  define st where "st = (\<lambda>k. execute (process L infos) (src k))"
  define nm where "nm = (\<lambda>k. the (src_metadata (src k) ''dataset_category''))"
  define lst where "lst = (\<lambda>k. last (fst (st k)))"
  have st_ok: "st k = (fst (st k), None) \<and> fst (st k) \<noteq> []
      \<and> axes (data (lst k)) = axes new_hist_data \<and> axes (MC (lst k)) = axes new_hist_MC"
    if "k \<in> set fileset_keys" for k
  proof -
    obtain items exc where e: "st k = (items, exc)" by (cases "st k")
    from assms(2) that
    have "case st k of (items, exc) \<Rightarrow>
            exc = None \<and> items \<noteq> []
            \<and> axes (data (last items)) = axes new_hist_data
            \<and> axes (MC (last items)) = axes new_hist_MC"
      unfolding st_def src_def list_all_iff by (rule bspec)
    with e show ?thesis by (simp add: lst_def)
  qed
  have jobs: "make_jobs (map src fileset_keys) (execute (process L infos))
      = Inr (map (\<lambda>k. (st k, nm k)) fileset_keys)"
  proof -
    have "list_all (\<lambda>source. src_metadata source ''dataset_category'' \<noteq> None)
            (map src fileset_keys)"
      using assms(1) by (simp add: list_all_iff src_def)
    from make_jobs_ok [OF this] show ?thesis
      by (simp add: st_def nm_def comp_def)
  qed
  have run: "run_updates_stream (st k) (nm k) = Inr (Some (lst k))"
    if "k \<in> set fileset_keys" for k
  proof -
    from st_ok [OF that] have "st k = (fst (st k), None)" and "fst (st k) \<noteq> []" by simp_all
    then show ?thesis
      using run_updates_stream_done [of "fst (st k)" "nm k"] by (simp add: lst_def)
  qed
  have outcomes: "map (\<lambda>(stream, name). run_updates_stream stream name)
                    (map (\<lambda>k. (st k, nm k)) fileset_keys)
      = map (\<lambda>k. run_updates_stream (st k) (nm k)) fileset_keys"
    by simp
  have seq: "sequence_err (map (\<lambda>k. run_updates_stream (st k) (nm k)) fileset_keys)
      = Inr (map (\<lambda>k. Some (lst k)) fileset_keys)"
    by (rule sequence_err_map_Inr) (rule run)
  have g: "gather sched (map (\<lambda>(stream, name). run_updates_stream stream name)
                           (map (\<lambda>k. (st k, nm k)) fileset_keys))
      = Inr (map Some (map lst fileset_keys))"
    unfolding outcomes using gather_ok [OF seq, of sched] by (simp add: comp_def)
  have ne: "map lst fileset_keys \<noteq> []"
    by (simp add: fileset_keys_eq)
  have sd: "py_sum (map data (map lst fileset_keys))
      = Inr (Hist \<lparr> axes = axes new_hist_data,
                     fills = concat (map fills (map data (map lst fileset_keys))) \<rparr>)"
    by (rule py_sum_same_axes) (use ne st_ok in \<open>simp_all add: list_all_iff\<close>)
  have sm: "py_sum (map MC (map lst fileset_keys))
      = Inr (Hist \<lparr> axes = axes new_hist_MC,
                     fills = concat (map fills (map MC (map lst fileset_keys))) \<rparr>)"
    by (rule py_sum_same_axes) (use ne st_ok in \<open>simp_all add: list_all_iff\<close>)
  have main: "produce_all_histograms L infos make_datasource execute sched =
      Inr \<lparr> data = Hist \<lparr> axes = axes new_hist_data,
                          fills = concat (map fills (map data (map lst fileset_keys))) \<rparr>,
            MC = Hist \<lparr> axes = axes new_hist_MC,
                        fills = concat (map fills (map MC (map lst fileset_keys))) \<rparr> \<rparr>"
    unfolding produce_all_histograms_def Let_def
    unfolding src_def [symmetric]
    unfolding jobs sum.case g getitems_Some sd sm
    by (rule refl)
  have len: "length (map (\<lambda>k. (st k, nm k)) fileset_keys) = 4"
    by (simp add: fileset_keys_eq)
  show ?thesis
    using main jobs len
    by (simp add: comp_def lst_def st_def src_def)
qed

theorem produce_all_histograms_sums_witness:
  "\<exists>d m. produce_all_histograms ex_veclib ex_infos ex_make_datasource ex_execute [2, 0, 3, 1]
            = Inr \<lparr> data = Hist d, MC = Hist m \<rparr>
         \<and> length (fills d) = 1 \<and> length (fills m) = 15"
proof -
  obtain r0 where r0:
    "ex_execute (process ex_veclib ex_infos)
       (ex_make_datasource fileset ''Data'' get_lepton_query) = ([r0], None)"
    "axes (data r0) = axes new_hist_data" "axes (MC r0) = axes new_hist_MC"
    "length (fills (data r0)) = 1" "length (fills (MC r0)) = 0"
    using ex_stream_Data [of get_lepton_query] by blast
  obtain r1 where r1:
    "ex_execute (process ex_veclib ex_infos)
       (ex_make_datasource fileset z_ttbar get_lepton_query) = ([r1], None)"
    "axes (data r1) = axes new_hist_data" "axes (MC r1) = axes new_hist_MC"
    "length (fills (data r1)) = 0" "length (fills (MC r1)) = 5"
    using ex_stream_MC [OF ex_first_files(2) z_ttbar_not_Data ex_Zee_sample ex_Zee_weight,
      of get_lepton_query] by blast
  obtain r2 where r2:
    "ex_execute (process ex_veclib ex_infos)
       (ex_make_datasource fileset zzstar get_lepton_query) = ([r2], None)"
    "axes (data r2) = axes new_hist_data" "axes (MC r2) = axes new_hist_MC"
    "length (fills (data r2)) = 0" "length (fills (MC r2)) = 5"
    using ex_stream_MC [OF ex_first_files(3) zzstar_not_Data ex_llll_sample ex_llll_weight,
      of get_lepton_query] by blast
  obtain r3 where r3:
    "ex_execute (process ex_veclib ex_infos)
       (ex_make_datasource fileset signal get_lepton_query) = ([r3], None)"
    "axes (data r3) = axes new_hist_data" "axes (MC r3) = axes new_hist_MC"
    "length (fills (data r3)) = 0" "length (fills (MC r3)) = 5"
    using ex_stream_MC [OF ex_first_files(4) signal_not_Data ex_filename_sample
      ex_infos_weight, of get_lepton_query] by blast
  have names: "list_all (\<lambda>k. src_metadata (ex_make_datasource fileset k get_lepton_query)
                            ''dataset_category'' \<noteq> None) fileset_keys"
    by (simp add: list_all_iff ex_make_datasource_def)
  have streams: "list_all (\<lambda>k. case ex_execute (process ex_veclib ex_infos)
                               (ex_make_datasource fileset k get_lepton_query) of
                          (items, exc) \<Rightarrow>
                            exc = None \<and> items \<noteq> []
                            \<and> axes (data (last items)) = axes new_hist_data
                            \<and> axes (MC (last items)) = axes new_hist_MC) fileset_keys"
    unfolding fileset_keys_eq by (simp add: r0 r1 r2 r3)
  have ld: "length (concat (map (\<lambda>k. fills (data (last (fst
                (ex_execute (process ex_veclib ex_infos)
                   (ex_make_datasource fileset k get_lepton_query)))))) fileset_keys)) = 1"
    unfolding fileset_keys_eq by (simp add: r0 r1 r2 r3)
  have lm: "length (concat (map (\<lambda>k. fills (MC (last (fst
                (ex_execute (process ex_veclib ex_infos)
                   (ex_make_datasource fileset k get_lepton_query)))))) fileset_keys)) = 15"
    unfolding fileset_keys_eq by (simp add: r0 r1 r2 r3)
  show ?thesis
    using produce_all_histograms_sums [where make_datasource = ex_make_datasource
        and execute = ex_execute and L = ex_veclib and infos = ex_infos
        and sched = "[2, 0, 3, 1]", OF names streams] ld lm
    by simp
qed

text \<open>
  When jobs fail, the caller sees the wrapped exception of the job that failed first.
  With an empty cross-section table the three Monte Carlo jobs of the toy executor fail
  on the weight lookup; the job of the third category finishes first in the schedule
  below, and its failure is the one reported.
\<close>

lemma produce_all_histograms_failure:
  "produce_all_histograms ex_veclib Map.empty ex_make_datasource ex_execute [2, 0, 3, 1]
     = Inl (Failure zzstar (KeyError ''llll''))"
proof -
  obtain r where r: "ex_execute (process ex_veclib Map.empty)
      (ex_make_datasource fileset ''Data'' get_lepton_query) = ([r], None)"
    using ex_stream_Data_any_infos by blast
  note s1 = ex_stream_missing_sample [OF ex_first_files(2) z_ttbar_not_Data ex_Zee_sample,
      of get_lepton_query]
  note s2 = ex_stream_missing_sample [OF ex_first_files(3) zzstar_not_Data ex_llll_sample,
      of get_lepton_query]
  note s3 = ex_stream_missing_sample [OF ex_first_files(4) signal_not_Data
      ex_filename_sample, of get_lepton_query]
  show ?thesis
    unfolding produce_all_histograms_def Let_def fileset_keys_eq
    by (simp add: make_jobs_def ex_make_datasource_category r s1 s2 s3
          run_updates_stream_def gather_def)
qed

end
